theory Spec2Isabelle
  imports Main "HOL-Library.Sublist" "HOL-Library.Word"
begin

section \<open>Strings\<close>

text \<open>
  A Python \<open>str\<close> is a sequence of Unicode code points. The keyword tables and the fixed
  replies of the engine are Chinese text, so a string is a list of code points; \<open>u\<close>
  writes an ASCII literal.
\<close>

type_synonym ustr = "nat list"

definition u :: "string \<Rightarrow> ustr" where
  "u s = map of_char s"

text \<open>\<open>k.startswith\<close> and the substring test \<open>kw in s\<close>.\<close>

fun startswith :: "ustr \<Rightarrow> ustr \<Rightarrow> bool" where
  "startswith [] s = True"
| "startswith (k # ks) [] = False"
| "startswith (k # ks) (c # cs) = (k = c \<and> startswith ks cs)"

fun contains :: "ustr \<Rightarrow> ustr \<Rightarrow> bool" where
  "contains kw [] = (kw = [])"
| "contains kw (c # cs) = (startswith kw (c # cs) \<or> contains kw cs)"

text \<open>
  The code points for which \<open>str.isspace\<close> holds; \<open>str.strip()\<close> and the regular
  expression class \<open>\s\<close> (on \<open>str\<close> patterns) both use this set.
\<close>

definition is_space :: "nat \<Rightarrow> bool" where
  "is_space c \<longleftrightarrow>
     (9 \<le> c \<and> c \<le> 13) \<or> (28 \<le> c \<and> c \<le> 32) \<or> c = 133 \<or> c = 160 \<or> c = 5760 \<or>
     (8192 \<le> c \<and> c \<le> 8202) \<or> c = 8232 \<or> c = 8233 \<or> c = 8239 \<or> c = 8287 \<or> c = 12288"

definition rstrip :: "ustr \<Rightarrow> ustr" where
  "rstrip s = rev (dropWhile is_space (rev s))"

definition strip :: "ustr \<Rightarrow> ustr" where
  "strip s = rstrip (dropWhile is_space s)"

text \<open>
  \<open>str.lower\<close> on ASCII text. The full Unicode case mapping is a table of the Python
  runtime; the engine takes the lowering function from its environment (see \<open>Env\<close>), and
  this instance serves inputs written in ASCII and in caseless scripts.
\<close>

definition ascii_lower :: "ustr \<Rightarrow> ustr" where
  "ascii_lower s = map (\<lambda>c. if 65 \<le> c \<and> c \<le> 90 then c + 32 else c) s"


section \<open>Data model (models.py)\<close>

datatype SessionPhase =
  WAITING_PROBLEM | WAITING_CODE | GUIDING | FOLLOWUP | TEACHING | COMPLETED

datatype UserIntent =
  SUBMIT_CODE | ASK_FOR_HELP | ANSWER_QUESTION | ASK_QUESTION | SKIP_PROBLEM | OTHER

text \<open>\<open>UserIntent(intent_str)\<close>: the enum member with that value, or \<open>ValueError\<close> (None).\<close>

definition UserIntent_of :: "ustr \<Rightarrow> UserIntent option" where
  "UserIntent_of v =
     (if v = u ''submit_code'' then Some SUBMIT_CODE
      else if v = u ''ask_for_help'' then Some ASK_FOR_HELP
      else if v = u ''answer_question'' then Some ANSWER_QUESTION
      else if v = u ''ask_question'' then Some ASK_QUESTION
      else if v = u ''skip_problem'' then Some SKIP_PROBLEM
      else if v = u ''other'' then Some OTHER
      else None)"

record Problem =
  title :: ustr
  description :: ustr
  difficulty :: ustr
  expected_complexity :: "ustr option"
  test_cases :: "(ustr \<times> ustr) list list"
  solution_hints :: "ustr list"

text \<open>
  A transcript entry. The wall-clock fields (\<open>timestamp\<close>, and \<open>created_at\<close>,
  \<open>updated_at\<close> of the session) are left out: nothing in the controller reads them.
\<close>

record Message =
  role :: ustr
  content :: ustr

record GuidanceState =
  attempt_count :: int
  max_attempts :: int
  current_hint_level :: int
  topics_covered :: "ustr list"

definition GuidanceState_default :: GuidanceState where
  "GuidanceState_default =
     \<lparr>attempt_count = 0, max_attempts = 5, current_hint_level = 1, topics_covered = []\<rparr>"

text \<open>\<open>increment_attempt\<close> returns whether attempts are left, with the updated tracker.\<close>

definition increment_attempt :: "GuidanceState \<Rightarrow> bool \<times> GuidanceState" where
  "increment_attempt g =
     (let g1 = g\<lparr>attempt_count := attempt_count g + 1\<rparr>;
          g2 = (if attempt_count g1 \<ge> 3
                then g1\<lparr>current_hint_level := min 3 (current_hint_level g1 + 1)\<rparr>
                else g1)
      in (attempt_count g2 < max_attempts g2, g2))"

definition is_exhausted :: "GuidanceState \<Rightarrow> bool" where
  "is_exhausted g \<longleftrightarrow> attempt_count g \<ge> max_attempts g"

definition guidance_reset :: "GuidanceState \<Rightarrow> GuidanceState" where
  "guidance_reset g = g\<lparr>attempt_count := 0, current_hint_level := 1, topics_covered := []\<rparr>"

record FollowUpState =
  questions_asked :: int
  total_questions :: int
  questions_history :: "ustr list"

definition FollowUpState_default :: FollowUpState where
  "FollowUpState_default = \<lparr>questions_asked = 0, total_questions = 3, questions_history = []\<rparr>"

definition add_question :: "FollowUpState \<Rightarrow> ustr \<Rightarrow> FollowUpState" where
  "add_question f question =
     f\<lparr>questions_history := questions_history f @ [question],
       questions_asked := questions_asked f + 1\<rparr>"

definition is_complete :: "FollowUpState \<Rightarrow> bool" where
  "is_complete f \<longleftrightarrow> questions_asked f \<ge> total_questions f"

definition followup_reset :: "FollowUpState \<Rightarrow> FollowUpState" where
  "followup_reset f = f\<lparr>questions_asked := 0, questions_history := []\<rparr>"

record Session =
  session_id :: ustr
  problem :: "Problem option"
  phase :: SessionPhase
  messages :: "Message list"
  user_code :: "ustr option"
  guidance_state :: GuidanceState
  followup_state :: FollowUpState

definition create_session :: "ustr \<Rightarrow> Session" where
  "create_session sid =
     \<lparr>session_id = sid, problem = None, phase = WAITING_PROBLEM, messages = [],
      user_code = None, guidance_state = GuidanceState_default,
      followup_state = FollowUpState_default\<rparr>"

definition add_message :: "Session \<Rightarrow> ustr \<Rightarrow> ustr \<Rightarrow> Session" where
  "add_message s r c = s\<lparr>messages := messages s @ [\<lparr>role = r, content = c\<rparr>]\<rparr>"

definition transition_to :: "Session \<Rightarrow> SessionPhase \<Rightarrow> Session" where
  "transition_to s new_phase = s\<lparr>phase := new_phase\<rparr>"

definition start_guidance :: "Session \<Rightarrow> Session" where
  "start_guidance s =
     transition_to (s\<lparr>guidance_state := guidance_reset (guidance_state s)\<rparr>) GUIDING"

definition start_followup :: "Session \<Rightarrow> Session" where
  "start_followup s =
     transition_to (s\<lparr>followup_state := followup_reset (followup_state s)\<rparr>) FOLLOWUP"

definition start_teaching :: "Session \<Rightarrow> Session" where
  "start_teaching s = transition_to s TEACHING"

definition complete :: "Session \<Rightarrow> Session" where
  "complete s = transition_to s COMPLETED"

definition reset_for_new_problem :: "Session \<Rightarrow> Session" where
  "reset_for_new_problem s =
     transition_to
       (s\<lparr>problem := None, user_code := None,
          guidance_state := guidance_reset (guidance_state s),
          followup_state := followup_reset (followup_state s)\<rparr>)
       WAITING_PROBLEM"


section \<open>The collaborator and the environment\<close>

datatype error =
  SessionNotFound ustr
| AttributeError
| CollaboratorError nat

text \<open>
  The normalized result of a structured collaborator call, read through the fields the
  controller looks up with \<open>response.get\<close>; a field that is present has the type its
  request kind gives it, an absent field is \<open>None\<close>.
\<close>

record Response =
  r_intent :: "ustr option"
  r_reply :: "ustr option"
  r_evaluation :: "ustr option"
  r_user_on_right_track :: "bool option"
  r_question :: "ustr option"
  r_answer_quality :: "ustr option"
  r_next_question :: "ustr option"

definition get_default :: "'a option \<Rightarrow> 'a \<Rightarrow> 'a" where
  "get_default field d = (case field of None \<Rightarrow> d | Some v \<Rightarrow> v)"

text \<open>
  What the controller does not own: the case mapping of the runtime and the collaborator.
  The collaborator is any sequence of outcomes: the \<open>k\<close>-th call made through the engine
  either raises or returns, as text (\<open>call\<close>) or as a normalized mapping (\<open>call_json\<close>).
  The prompts themselves only carry context to the collaborator and are not modelled, only
  the \<open>AttributeError\<close> that building one raises when it reads \<open>session.problem.title\<close>
  of a session without a problem.
\<close>

record Env =
  str_lower :: "ustr \<Rightarrow> ustr"
  llm_call :: "nat \<Rightarrow> error + ustr"
  llm_call_json :: "nat \<Rightarrow> error + Response"


section \<open>Fixed texts of the engine (coach_engine.py)\<close>

definition skip_keywords :: "ustr list" where
  "skip_keywords =
     [[36339, 36807], [25442, 39064], u ''skip'', u ''next'', [19979, 19968, 39064]]"

definition help_keywords :: "ustr list" where
  "help_keywords =
     [[24110, 21161], [25552, 31034], u ''hint'', u ''help'', [19981, 20250],
      [19981, 30693, 36947], [32473, 25105, 25552, 31034], [24590, 20040, 20570]]"

definition code_indicators :: "ustr list" where
  "code_indicators =
     [u ''def '', u ''function'', u ''class '', u ''for '', u ''while '', u ''if '',
      u ''return'', u ''=>'', u ''```'']"

definition waiting_problem_reply :: ustr where
  "waiting_problem_reply =
     [35831, 20808, 36873, 25321, 19968, 36947, 39064, 30446, 24320, 22987, 32451, 20064,
      12290]"

definition guidance_default_reply :: ustr where
  "guidance_default_reply =
     [35753, 25105, 20204, 25442, 20010, 35282, 24230, 24819, 24819, 46, 46, 46]"

definition help_default_reply :: ustr where
  "help_default_reply =
     [35753, 25105, 20204, 19968, 27493, 27493, 26469, 12290, 39318, 20808, 65292, 20320,
      23545, 36825, 36947, 39064, 30340, 31532, 19968, 21453, 24212, 26159, 20160, 20040,
      65311]"

definition default_question :: ustr where
  "default_question =
     [20320, 33021, 35299, 37322, 19968, 19979, 20320, 30340, 31639, 27861, 30340, 26102,
      38388, 22797, 26434, 24230, 21527, 65311]"

text \<open>The two words whose presence counts as a closing remark, and the remark appended.\<close>

definition congratulation_word :: ustr where
  "congratulation_word = [24685, 21916]"

definition completion_word :: ustr where
  "completion_word = [23436, 25104]"

definition closing_remark :: ustr where
  "closing_remark =
     [10, 10, 22826, 26834, 20102, 65281, 20320, 24050, 32463, 23436, 25104, 20102, 36825,
      36947, 39064, 30340, 25152, 26377, 25361, 25112, 12290, 20570, 24471, 24456, 22909,
      65281]"

definition completed_reply :: ustr where
  "completed_reply =
     [36825, 36947, 39064, 25105, 20204, 24050, 32463, 35752, 35770, 23436, 20102, 12290,
      20320, 24819, 32487, 32493, 32451, 20064, 19979, 19968, 36947, 39064, 21527, 65311]"

definition completion_summary :: ustr where
  "completion_summary =
     [127881, 32, 22826, 26834, 20102, 65281, 20320, 24050, 32463, 23436, 25104, 20102,
      36825, 36947, 39064, 65281, 10, 10, 42, 42, 20320, 30340, 34920, 29616, 65306, 42, 42,
      10, 45, 32, 20195, 30721, 27491, 30830, 10, 45, 32, 23436, 25104, 20102, 25152, 26377,
      36861, 38382, 10, 10, 32487, 32493, 20445, 25345, 65281, 20934, 22791, 22909, 19979,
      19968, 36947, 39064, 20102, 21527, 65311]"

definition skip_prefix :: ustr where
  "skip_prefix =
     [27809, 38382, 39064, 65292, 35753, 25105, 20808, 32473, 20320, 35762, 35299, 19968,
      19979, 36825, 36947, 39064, 65306, 10, 10]"

definition skip_suffix :: ustr where
  "skip_suffix = [10, 10, 20934, 22791, 22909, 19979, 19968, 36947, 39064, 20102, 21527, 65311]"

definition opening_prefix :: ustr where
  "opening_prefix =
     [22909, 30340, 65292, 35753, 25105, 20204, 26469, 30475, 36825, 36947, 39064, 65306, 10,
      10, 42, 42]"

definition opening_suffix :: ustr where
  "opening_suffix =
     [10, 10, 20320, 21487, 20197, 20808, 24819, 19968, 24819, 65292, 28982, 21518, 25226,
      20320, 30340, 20195, 30721, 25110, 24605, 36335, 21578, 35785, 25105, 12290, 22914,
      26524, 38656, 35201, 25552, 31034, 65292, 38543, 26102, 21487, 20197, 38382, 25105,
      65281]"


section \<open>The phase controller (coach_engine.py)\<close>

text \<open>
  A handler mutates the session in place and may raise after it has done so; it is a
  function from the session and the number of collaborator calls made so far to the
  outcome (\<open>Inl\<close> the exception, \<open>Inr\<close> the reply), the session as it then is, and the
  new call count.
\<close>

type_synonym 'a outcome = "(error + 'a) \<times> Session \<times> nat"

text \<open>\<open>any(kw in text for kw in keywords)\<close>.\<close>

definition any_in :: "ustr list \<Rightarrow> ustr \<Rightarrow> bool" where
  "any_in keywords text = list_ex (\<lambda>kw. contains kw text) keywords"

text \<open>\<open>_recognize_intent\<close>: three keyword tiers, then the collaborator.\<close>

definition recognize_intent ::
  "Env \<Rightarrow> Session \<Rightarrow> ustr \<Rightarrow> nat \<Rightarrow> (error + UserIntent \<times> ustr) \<times> nat" where
  "recognize_intent env s user_input n =
     (let input_lower = strip (str_lower env user_input) in
      if any_in skip_keywords input_lower then (Inr (SKIP_PROBLEM, []), n)
      else if any_in help_keywords input_lower then (Inr (ASK_FOR_HELP, []), n)
      else if any_in code_indicators user_input then (Inr (SUBMIT_CODE, []), n)
      else
        (case llm_call_json env n of
           Inl e \<Rightarrow> (Inl e, Suc n)
         | Inr response \<Rightarrow>
             (let intent_str = get_default (r_intent response) (u ''other'');
                  reply = get_default (r_reply response) [];
                  intent = (case UserIntent_of intent_str of
                              Some i \<Rightarrow> i | None \<Rightarrow> OTHER)
              in (Inr (intent, reply), Suc n))))"

text \<open>\<open>_generate_teaching\<close>: a plain text call.\<close>

definition generate_teaching :: "Env \<Rightarrow> Session \<Rightarrow> nat \<Rightarrow> ustr outcome" where
  "generate_teaching env s n =
     (if problem s = None then (Inl AttributeError, s, n)
      else (llm_call env n, s, Suc n))"

definition generate_completion :: "Session \<Rightarrow> ustr" where
  "generate_completion s = completion_summary"

definition generate_followup_question :: "Env \<Rightarrow> Session \<Rightarrow> nat \<Rightarrow> ustr outcome" where
  "generate_followup_question env s n =
     (if problem s = None then (Inl AttributeError, s, n)
      else
        (case llm_call_json env n of
           Inl e \<Rightarrow> (Inl e, s, Suc n)
         | Inr response \<Rightarrow>
             (let question = get_default (r_question response) default_question
              in (Inr question,
                  s\<lparr>followup_state := add_question (followup_state s) question\<rparr>,
                  Suc n))))"

definition evaluate_and_respond :: "Env \<Rightarrow> Session \<Rightarrow> ustr \<Rightarrow> nat \<Rightarrow> ustr outcome" where
  "evaluate_and_respond env s user_input n =
     (let s1 = s\<lparr>user_code := Some user_input\<rparr> in
      if problem s1 = None then (Inl AttributeError, s1, n)
      else
        (case llm_call_json env n of
           Inl e \<Rightarrow> (Inl e, s1, Suc n)
         | Inr response \<Rightarrow>
             (let evaluation = get_default (r_evaluation response) (u ''incorrect'');
                  reply = get_default (r_reply response) []
              in if evaluation = u ''correct'' then
                   (case generate_followup_question env (start_followup s1) (Suc n) of
                      (Inl e, s2, n2) \<Rightarrow> (Inl e, s2, n2)
                    | (Inr first_followup, s2, n2) \<Rightarrow>
                        (Inr (if reply \<noteq> [] then reply @ [10, 10] @ first_followup
                              else first_followup), s2, n2))
                 else (Inr reply, start_guidance s1, Suc n))))"

definition handle_help_request :: "Env \<Rightarrow> Session \<Rightarrow> ustr \<Rightarrow> nat \<Rightarrow> ustr outcome" where
  "handle_help_request env s user_input n =
     (if problem s = None then (Inl AttributeError, s, n)
      else
        (case llm_call_json env n of
           Inl e \<Rightarrow> (Inl e, s, Suc n)
         | Inr response \<Rightarrow>
             (Inr (get_default (r_reply response) help_default_reply),
              s\<lparr>guidance_state := snd (increment_attempt (guidance_state s))\<rparr>,
              Suc n)))"

definition handle_skip :: "Env \<Rightarrow> Session \<Rightarrow> nat \<Rightarrow> ustr outcome" where
  "handle_skip env s n =
     (case generate_teaching env (start_teaching s) n of
        (Inl e, s1, n1) \<Rightarrow> (Inl e, s1, n1)
      | (Inr teaching, s1, n1) \<Rightarrow>
          (Inr (skip_prefix @ teaching @ skip_suffix), complete s1, n1))"

definition answer_post_teaching_question ::
  "Env \<Rightarrow> Session \<Rightarrow> ustr \<Rightarrow> nat \<Rightarrow> ustr outcome" where
  "answer_post_teaching_question env s user_input n =
     (if problem s = None then (Inl AttributeError, s, n)
      else (llm_call env n, s, Suc n))"

definition handle_waiting_problem :: "Env \<Rightarrow> Session \<Rightarrow> ustr \<Rightarrow> nat \<Rightarrow> ustr outcome" where
  "handle_waiting_problem env s user_input n = (Inr waiting_problem_reply, s, n)"

definition handle_waiting_code :: "Env \<Rightarrow> Session \<Rightarrow> ustr \<Rightarrow> nat \<Rightarrow> ustr outcome" where
  "handle_waiting_code env s user_input n =
     (case recognize_intent env s user_input n of
        (Inl e, n1) \<Rightarrow> (Inl e, s, n1)
      | (Inr (intent, intent_reply), n1) \<Rightarrow>
          (if intent = SUBMIT_CODE then evaluate_and_respond env s user_input n1
           else if intent = ASK_FOR_HELP
             then handle_help_request env (start_guidance s) user_input n1
           else if intent = SKIP_PROBLEM then handle_skip env s n1
           else (Inr intent_reply, s, n1)))"

definition handle_guiding :: "Env \<Rightarrow> Session \<Rightarrow> ustr \<Rightarrow> nat \<Rightarrow> ustr outcome" where
  "handle_guiding env s user_input n =
     (if is_exhausted (guidance_state s) then generate_teaching env (start_teaching s) n
      else
        (case recognize_intent env s user_input n of
           (Inl e, n1) \<Rightarrow> (Inl e, s, n1)
         | (Inr (intent, _), n1) \<Rightarrow>
             (if intent = SUBMIT_CODE then evaluate_and_respond env s user_input n1
              else if intent = SKIP_PROBLEM then handle_skip env s n1
              else if problem s = None then (Inl AttributeError, s, n1)
              else
                (case llm_call_json env n1 of
                   Inl e \<Rightarrow> (Inl e, s, Suc n1)
                 | Inr response \<Rightarrow>
                     (let reply = get_default (r_reply response) guidance_default_reply;
                          on_track = get_default (r_user_on_right_track response) False;
                          (has_attempts, g) = increment_attempt (guidance_state s);
                          s1 = s\<lparr>guidance_state := g\<rparr>
                      in if on_track then (Inr reply, s1, Suc n1)
                         else if \<not> has_attempts
                           then generate_teaching env (start_teaching s1) (Suc n1)
                         else (Inr reply, s1, Suc n1))))))"

definition handle_followup :: "Env \<Rightarrow> Session \<Rightarrow> ustr \<Rightarrow> nat \<Rightarrow> ustr outcome" where
  "handle_followup env s user_input n =
     (let followup = followup_state s;
          current_q_num = questions_asked followup
      in if is_complete followup then (Inr (generate_completion s), complete s, n)
         else if current_q_num = 0 then generate_followup_question env s n
         else if problem s = None then (Inl AttributeError, s, n)
         else
           (case llm_call_json env n of
              Inl e \<Rightarrow> (Inl e, s, Suc n)
            | Inr response \<Rightarrow>
                (let reply = get_default (r_reply response) [];
                     next_q = get_default (r_next_question response) [];
                     s1 = (if current_q_num < total_questions followup \<and> next_q \<noteq> []
                           then s\<lparr>followup_state := add_question followup next_q\<rparr>
                           else s)
                 in if is_complete (followup_state s1) then
                      (Inr (if \<not> contains congratulation_word reply
                               \<and> \<not> contains completion_word reply
                            then reply @ closing_remark else reply),
                       complete s1, Suc n)
                    else (Inr reply, s1, Suc n))))"

definition handle_teaching :: "Env \<Rightarrow> Session \<Rightarrow> ustr \<Rightarrow> nat \<Rightarrow> ustr outcome" where
  "handle_teaching env s user_input n = answer_post_teaching_question env s user_input n"

definition handle_completed :: "Env \<Rightarrow> Session \<Rightarrow> ustr \<Rightarrow> nat \<Rightarrow> ustr outcome" where
  "handle_completed env s user_input n = (Inr completed_reply, s, n)"

text \<open>The dispatch on the phase inside \<open>process_input\<close>.\<close>

fun dispatch :: "SessionPhase \<Rightarrow> Env \<Rightarrow> Session \<Rightarrow> ustr \<Rightarrow> nat \<Rightarrow> ustr outcome" where
  "dispatch WAITING_PROBLEM = handle_waiting_problem"
| "dispatch WAITING_CODE = handle_waiting_code"
| "dispatch GUIDING = handle_guiding"
| "dispatch FOLLOWUP = handle_followup"
| "dispatch TEACHING = handle_teaching"
| "dispatch COMPLETED = handle_completed"

text \<open>
  The engine: the session store and the count of collaborator calls made. The session is
  an object shared with the store, so what a handler did to it before raising stays.
\<close>

record CoachEngine =
  sessions :: "ustr \<rightharpoonup> Session"
  llm_calls :: nat

definition engine_create_session :: "CoachEngine \<Rightarrow> ustr \<Rightarrow> CoachEngine" where
  "engine_create_session eng sid = eng\<lparr>sessions := (sessions eng)(sid \<mapsto> create_session sid)\<rparr>"

definition generate_opening :: "Problem \<Rightarrow> ustr" where
  "generate_opening p = opening_prefix @ title p @ [42, 42, 10, 10] @ description p @ opening_suffix"

definition set_problem :: "CoachEngine \<Rightarrow> ustr \<Rightarrow> Problem \<Rightarrow> (error + ustr) \<times> CoachEngine" where
  "set_problem eng sid p =
     (case sessions eng sid of
        None \<Rightarrow> (Inl (SessionNotFound sid), eng)
      | Some s \<Rightarrow>
          (let s1 = transition_to (s\<lparr>problem := Some p\<rparr>) WAITING_CODE;
               opening = generate_opening p;
               s2 = add_message s1 (u ''assistant'') opening
           in (Inr opening, eng\<lparr>sessions := (sessions eng)(sid \<mapsto> s2)\<rparr>)))"

text \<open>\<open>process_input\<close> on one session: record the input, run the handler, record the reply.\<close>

definition process_turn :: "Env \<Rightarrow> Session \<Rightarrow> ustr \<Rightarrow> nat \<Rightarrow> ustr outcome" where
  "process_turn env s user_input n =
     (let s1 = add_message s (u ''user'') user_input in
      case dispatch (phase s1) env s1 user_input n of
        (Inl e, s2, n2) \<Rightarrow> (Inl e, s2, n2)
      | (Inr reply, s2, n2) \<Rightarrow> (Inr reply, add_message s2 (u ''assistant'') reply, n2))"

definition process_input ::
  "Env \<Rightarrow> CoachEngine \<Rightarrow> ustr \<Rightarrow> ustr \<Rightarrow> (error + ustr) \<times> CoachEngine" where
  "process_input env eng sid user_input =
     (case sessions eng sid of
        None \<Rightarrow> (Inl (SessionNotFound sid), eng)
      | Some s \<Rightarrow>
          (case process_turn env s user_input (llm_calls eng) of
             (r, s', n') \<Rightarrow> (r, eng\<lparr>sessions := (sessions eng)(sid \<mapsto> s'), llm_calls := n'\<rparr>)))"


section \<open>The response normalizer (llm_client.py, QwenClient._parse_json)\<close>

text \<open>
  What \<open>json.loads\<close> returns. An object keeps its pairs in the order they were written,
  as a Python \<open>dict\<close> does; a float is its 64 bits.
\<close>

datatype json =
  JNull
| JBool bool
| JInt int
| JFloat "64 word"
| JStr ustr
| JArr "json list"
| JObj "(ustr \<times> json) list"

text \<open>\<open>str.find\<close> and \<open>str.rfind\<close>: the lowest and the highest index, or None for \<open>-1\<close>.\<close>

fun find_sub :: "ustr \<Rightarrow> ustr \<Rightarrow> nat option" where
  "find_sub sub [] = (if sub = [] then Some 0 else None)"
| "find_sub sub (c # cs) =
     (if startswith sub (c # cs) then Some 0 else map_option Suc (find_sub sub cs))"

fun rfind_sub :: "ustr \<Rightarrow> ustr \<Rightarrow> nat option" where
  "rfind_sub sub [] = (if sub = [] then Some 0 else None)"
| "rfind_sub sub (c # cs) =
     (case rfind_sub sub cs of
        Some i \<Rightarrow> Some (Suc i)
      | None \<Rightarrow> if startswith sub (c # cs) then Some 0 else None)"

text \<open>\<open>text[start:stop]\<close> for indices within the text; empty when \<open>stop \<le> start\<close>.\<close>

definition slice :: "ustr \<Rightarrow> nat \<Rightarrow> nat \<Rightarrow> ustr" where
  "slice text start stop = take (stop - start) (drop start text)"

text \<open>
  \<open>re.search(opening + r'\s*(.*?)\s*```', text, re.DOTALL)\<close> and its group 1, for an
  opening that starts with three backticks and holds no white space. The leftmost match
  starts at the first occurrence of the opening; the first \<open>\s*\<close> takes all the white
  space after it; the lazy group then runs to the first three backticks that follow, less
  the white space in front of them.
\<close>

definition fence_interior :: "ustr \<Rightarrow> ustr \<Rightarrow> ustr option" where
  "fence_interior opening text =
     (case find_sub opening text of
        None \<Rightarrow> None
      | Some i \<Rightarrow>
          (let body = dropWhile is_space (drop (i + length opening) text) in
           case find_sub (u ''```'') body of
             None \<Rightarrow> None
           | Some k \<Rightarrow> Some (rstrip (take k body))))"

definition brace_span :: "ustr \<Rightarrow> ustr option" where
  "brace_span text =
     (case (find_sub (u ''{'') text, rfind_sub (u ''}'') text) of
        (Some start, Some end') \<Rightarrow> Some (slice text start (end' + 1))
      | _ \<Rightarrow> None)"


text \<open>
  What a call of \<open>json.loads\<close> does: it returns a value, raises \<open>JSONDecodeError\<close>, or
  raises another exception (\<open>RecursionError\<close> on nesting deeper than the interpreter's
  recursion limit, \<open>ValueError\<close> on an integer literal longer than the interpreter's digit
  limit), which no \<open>except\<close> clause of \<open>_parse_json\<close> catches.
\<close>

datatype py_exception = RecursionError | ValueError










section \<open>Predicates over the model\<close>

text \<open>
  Where the failure of a turn comes from: building a prompt for a session without a
  problem raises \<open>AttributeError\<close>; any other exception is the one the last collaborator
  call made in the turn raised.
\<close>

definition failure_origin :: "Env \<Rightarrow> nat \<Rightarrow> error \<Rightarrow> nat \<Rightarrow> bool" where
  "failure_origin env n e n' \<longleftrightarrow>
     e = AttributeError \<or>
     (n < n' \<and> (llm_call env (n' - 1) = Inl e \<or> llm_call_json env (n' - 1) = Inl e))"


text \<open>
  The \<open>k\<close>-th collaborator call is made in a turn that starts with \<open>n\<close> calls made and
  ends with \<open>n'\<close>, and it fails with \<open>e\<close> whichever way it is made.
\<close>

definition made_call_fails :: "Env \<Rightarrow> nat \<Rightarrow> nat \<Rightarrow> error \<Rightarrow> nat \<Rightarrow> bool" where
  "made_call_fails env n n' e k \<longleftrightarrow>
     n \<le> k \<and> k < n' \<and> llm_call env k = Inl e \<and> llm_call_json env k = Inl e"

text \<open>No keyword tier decides the intent of the input: the collaborator is asked.\<close>

definition keyword_free :: "Env \<Rightarrow> ustr \<Rightarrow> bool" where
  "keyword_free env user_input \<longleftrightarrow>
     \<not> any_in skip_keywords (strip (str_lower env user_input))
   \<and> \<not> any_in help_keywords (strip (str_lower env user_input))
   \<and> \<not> any_in code_indicators user_input"


text \<open>
  The guidance tracker within its bounds, and what one turn may do to it: leave it, count
  one more attempt during guidance that is not exhausted, or, on entering GUIDING, reset it
  (and count the help request that entered it).
\<close>

definition guidance_inv :: "GuidanceState \<Rightarrow> bool" where
  "guidance_inv g \<longleftrightarrow>
     max_attempts g = 5 \<and> 0 \<le> attempt_count g \<and> attempt_count g \<le> max_attempts g \<and>
     1 \<le> current_hint_level g \<and> current_hint_level g \<le> 3"

definition guidance_turn :: "Session \<Rightarrow> Session \<Rightarrow> bool" where
  "guidance_turn s s' \<longleftrightarrow>
     (guidance_state s' = guidance_state s \<and> (phase s' = GUIDING \<longrightarrow> phase s = GUIDING))
   \<or> (phase s = GUIDING \<and> \<not> is_exhausted (guidance_state s)
        \<and> guidance_state s' = snd (increment_attempt (guidance_state s)))
   \<or> (phase s' = GUIDING
        \<and> (guidance_state s' = guidance_reset (guidance_state s)
           \<or> guidance_state s' = snd (increment_attempt (guidance_reset (guidance_state s)))))"

text \<open>
  The follow-up tracker within its bounds, and what one turn may do to it: leave it,
  append one question during a follow-up cycle that is not complete, or, on entering
  FOLLOWUP from another phase, reset it (and append the first question).
\<close>

definition appended_one :: "FollowUpState \<Rightarrow> FollowUpState \<Rightarrow> bool" where
  "appended_one f f' \<longleftrightarrow> f' = add_question f (last (questions_history f'))"

definition followup_inv :: "FollowUpState \<Rightarrow> bool" where
  "followup_inv f \<longleftrightarrow>
     total_questions f = 3 \<and> questions_asked f \<le> total_questions f \<and>
     questions_asked f = int (length (questions_history f))"

definition followup_turn :: "Session \<Rightarrow> Session \<Rightarrow> bool" where
  "followup_turn s s' \<longleftrightarrow>
     (followup_state s' = followup_state s \<and> (phase s' = FOLLOWUP \<longrightarrow> phase s = FOLLOWUP))
   \<or> (phase s = FOLLOWUP \<and> \<not> is_complete (followup_state s)
        \<and> appended_one (followup_state s) (followup_state s'))
   \<or> (phase s \<noteq> FOLLOWUP \<and> phase s' = FOLLOWUP
        \<and> (followup_state s' = followup_reset (followup_state s)
           \<or> appended_one (followup_reset (followup_state s)) (followup_state s')))"


section \<open>Example objects\<close>

definition example_problem :: Problem where
  "example_problem =
     \<lparr>title = u ''Two Sum'', description = u ''Find two numbers that add up to a target.'',
      difficulty = u ''easy'', expected_complexity = Some (u ''O(n)''), test_cases = [],
      solution_hints = []\<rparr>"

definition example_session :: "SessionPhase \<Rightarrow> Session" where
  "example_session ph =
     (create_session (u ''s1''))\<lparr>problem := Some example_problem, phase := ph\<rparr>"

definition example_engine :: "Session \<Rightarrow> CoachEngine" where
  "example_engine s = \<lparr>sessions = [u ''s1'' \<mapsto> s], llm_calls = 0\<rparr>"

definition no_fields :: Response where
  "no_fields =
     \<lparr>r_intent = None, r_reply = None, r_evaluation = None, r_user_on_right_track = None,
      r_question = None, r_answer_quality = None, r_next_question = None\<rparr>"

text \<open>A collaborator that answers its first calls from a script and fails after it.\<close>

definition scripted :: "Response list \<Rightarrow> nat \<Rightarrow> error + Response" where
  "scripted rs k = (if k < length rs then Inr (rs ! k) else Inl (CollaboratorError k))"

definition example_env :: "Response list \<Rightarrow> Env" where
  "example_env rs =
     \<lparr>str_lower = ascii_lower, llm_call = (\<lambda>k. Inr (u ''lesson'')),
      llm_call_json = scripted rs\<rparr>"

definition judged_correct :: Response where
  "judged_correct = no_fields\<lparr>r_evaluation := Some (u ''correct''), r_reply := Some (u ''Good.'')\<rparr>"

definition judged_partial :: Response where
  "judged_partial = no_fields\<lparr>r_evaluation := Some (u ''partial''), r_reply := Some (u ''Almost.'')\<rparr>"

definition asks_why :: Response where
  "asks_why = no_fields\<lparr>r_question := Some (u ''Why?'')\<rparr>"

definition off_track :: Response where
  "off_track = no_fields\<lparr>r_reply := Some (u ''Think again.''), r_user_on_right_track := Some False\<rparr>"

definition answer_good :: Response where
  "answer_good = no_fields\<lparr>r_answer_quality := Some (u ''good''), r_reply := Some (u ''Right.'')\<rparr>"

text \<open>A session in its fifth guided turn, and one with two follow-up questions asked.\<close>

definition guiding_session :: "int \<Rightarrow> Session" where
  "guiding_session k =
     (example_session GUIDING)\<lparr>guidance_state :=
        GuidanceState_default\<lparr>attempt_count := k, current_hint_level := 3\<rparr>\<rparr>"

definition followup_session :: Session where
  "followup_session =
     (example_session FOLLOWUP)\<lparr>user_code := Some (u ''def f''),
        followup_state := FollowUpState_default\<lparr>questions_asked := 2,
          questions_history := [u ''Why?'', u ''How fast?'']\<rparr>\<rparr>"






section \<open>Basic facts\<close>

lemmas session_ops =
  add_message_def transition_to_def start_guidance_def start_followup_def start_teaching_def
  complete_def

lemmas example_defs =
  example_problem_def example_session_def example_engine_def no_fields_def example_env_def
  create_session_def GuidanceState_default_def FollowUpState_default_def

lemma process_turn_alt:
  "process_turn env s user_input n =
     (case dispatch (phase s) env (add_message s (u ''user'') user_input) user_input n of
        (r, s2, n2) \<Rightarrow>
          (r, (case r of Inl e \<Rightarrow> s2 | Inr reply \<Rightarrow> add_message s2 (u ''assistant'') reply),
           n2))"
  by (simp add: process_turn_def Let_def add_message_def split: prod.splits sum.splits)

lemma scripted_0: "scripted (r # rs) 0 = Inr r"
  by (simp add: scripted_def)

lemma scripted_Suc: "scripted (r # rs) (Suc k) =
    (case scripted rs k of Inl e \<Rightarrow> Inl (CollaboratorError (Suc k)) | Inr x \<Rightarrow> Inr x)"
  by (simp add: scripted_def)

lemma scripted_Nil: "scripted [] k = Inl (CollaboratorError k)"
  by (simp add: scripted_def)

lemma example_env_sel:
  "llm_call_json (example_env rs) = scripted rs"
  "llm_call (example_env rs) k = Inr (u ''lesson'')"
  "str_lower (example_env rs) = ascii_lower"
  by (simp_all add: example_env_def)

lemma example_session_sel:
  "problem (example_session ph) = Some example_problem"
  "phase (example_session ph) = ph"
  "guidance_state (example_session ph) = GuidanceState_default"
  "followup_state (example_session ph) = FollowUpState_default"
  "messages (example_session ph) = []"
  by (simp_all add: example_session_def create_session_def)

text \<open>The input \<open>def f\<close> is a code submission by the keyword tiers alone.\<close>

lemma intent_def_f:
  "recognize_intent (example_env rs) s (u ''def f'') n = (Inr (SUBMIT_CODE, []), n)"
  by (simp add: recognize_intent_def example_env_def ascii_lower_def strip_def rstrip_def
      is_space_def u_def any_in_def skip_keywords_def help_keywords_def code_indicators_def)

text \<open>The input \<open>hm\<close> passes the keyword tiers; the collaborator names no intent.\<close>

lemma intent_hm:
  "recognize_intent (example_env (r # rs)) s (u ''hm'') 0 =
     (Inr (case UserIntent_of (get_default (r_intent r) (u ''other'')) of
             Some i \<Rightarrow> i | None \<Rightarrow> OTHER, get_default (r_reply r) []), Suc 0)"
  by (simp add: recognize_intent_def example_env_def ascii_lower_def strip_def rstrip_def
      is_space_def u_def any_in_def skip_keywords_def help_keywords_def code_indicators_def
      scripted_def)

lemma intent_cases:
  obtains (fails) e n1 where "recognize_intent env s user_input n = (Inl e, n1)"
  | (intent) i ir n1 where "recognize_intent env s user_input n = (Inr (i, ir), n1)"
proof (cases "recognize_intent env s user_input n")
  case (Pair r n1)
  then show ?thesis
    by (cases r) (auto intro: fails intent)
qed

lemma evaluate_correct:
  assumes "problem s \<noteq> None"
    and "llm_call_json env n = Inr response"
    and "r_evaluation response = Some (u ''correct'')"
    and "llm_call_json env (Suc n) = Inr response2"
  shows "evaluate_and_respond env s user_input n =
           (Inr (if get_default (r_reply response) [] \<noteq> []
                 then get_default (r_reply response) [] @ [10, 10]
                        @ get_default (r_question response2) default_question
                 else get_default (r_question response2) default_question),
            s\<lparr>user_code := Some user_input, phase := FOLLOWUP,
              followup_state := (followup_state s)\<lparr>questions_asked := 1,
                 questions_history := [get_default (r_question response2) default_question]\<rparr>\<rparr>,
            Suc (Suc n))"
  using assms
  by (simp add: evaluate_and_respond_def generate_followup_question_def get_default_def
      session_ops followup_reset_def add_question_def Let_def)


section \<open>Absorbing phases\<close>

text \<open>
  C9. TEACHING and COMPLETED are absorbing: a turn processed for a session in one of these
  phases leaves the session in the same phase, whatever the input and whatever the
  collaborator does. In COMPLETED the reply is the fixed invitation to go on to a next
  problem; in TEACHING the outcome is that of one plain collaborator call, which answers
  the learner's question.
\<close>

theorem teaching_completed_absorbing:
  assumes "sessions eng sid = Some s"
    and "phase s = TEACHING \<or> phase s = COMPLETED"
  shows "map_option phase (sessions (snd (process_input env eng sid user_input)) sid)
           = Some (phase s)
       \<and> (phase s = COMPLETED \<longrightarrow>
            fst (process_input env eng sid user_input) = Inr completed_reply)
       \<and> (phase s = TEACHING \<and> problem s \<noteq> None \<longrightarrow>
            fst (process_input env eng sid user_input) = llm_call env (llm_calls eng))"
  using assms
  by (auto simp add: process_input_def process_turn_alt handle_teaching_def
      handle_completed_def answer_post_teaching_question_def session_ops
      split: prod.splits sum.splits if_splits)

theorem teaching_completed_absorbing_witness:
  "map_option phase
     (sessions (snd (process_input (example_env []) (example_engine (example_session TEACHING))
        (u ''s1'') (u ''why?''))) (u ''s1'')) = Some TEACHING
   \<and> fst (process_input (example_env []) (example_engine (example_session TEACHING))
        (u ''s1'') (u ''why?'')) = Inr (u ''lesson'')"
proof -
  have h1: "sessions (example_engine (example_session TEACHING)) (u ''s1'')
      = Some (example_session TEACHING)"
    by (simp add: example_engine_def)
  have h2: "phase (example_session TEACHING) = TEACHING \<or> phase (example_session TEACHING) = COMPLETED"
    by (simp add: example_session_sel)
  show ?thesis
    using teaching_completed_absorbing [OF h1 h2, of "example_env []" "u ''why?''"]
    by (simp add: example_session_sel example_env_sel example_engine_def)
qed


section \<open>Evaluating a code submission\<close>

text \<open>
  C10. When a code submission is evaluated and the evaluation tag is anything but exactly
  \<open>correct\<close> (\<open>partial\<close>, \<open>cannot_evaluate\<close>, an unknown string, or no tag at all, which
  reads as \<open>incorrect\<close>), the guidance tracker is reset (no attempts, hint level 1), the
  session goes to GUIDING, and the reply is the evaluation reply alone.
\<close>

theorem other_evaluation_starts_guidance:
  assumes "problem s \<noteq> None"
    and "llm_call_json env n = Inr response"
    and "r_evaluation response \<noteq> Some (u ''correct'')"
  shows "evaluate_and_respond env s user_input n =
           (Inr (get_default (r_reply response) []),
            start_guidance (s\<lparr>user_code := Some user_input\<rparr>), Suc n)
       \<and> phase (start_guidance (s\<lparr>user_code := Some user_input\<rparr>)) = GUIDING
       \<and> attempt_count (guidance_state (start_guidance (s\<lparr>user_code := Some user_input\<rparr>))) = 0
       \<and> current_hint_level
            (guidance_state (start_guidance (s\<lparr>user_code := Some user_input\<rparr>))) = 1"
  using assms
  by (cases "r_evaluation response")
     (auto simp add: evaluate_and_respond_def get_default_def session_ops guidance_reset_def
        u_def)

theorem other_evaluation_starts_guidance_witness:
  "evaluate_and_respond (example_env [judged_partial]) (guiding_session 4) (u ''def f'') 0 =
     (Inr (u ''Almost.''),
      start_guidance ((guiding_session 4)\<lparr>user_code := Some (u ''def f'')\<rparr>), Suc 0)
   \<and> attempt_count (guidance_state
        (start_guidance ((guiding_session 4)\<lparr>user_code := Some (u ''def f'')\<rparr>))) = 0"
proof -
  have p: "problem (guiding_session 4) \<noteq> None"
    by (simp add: guiding_session_def example_session_sel)
  have j: "llm_call_json (example_env [judged_partial]) 0 = Inr judged_partial"
    by (simp add: example_env_sel scripted_0)
  have e: "r_evaluation judged_partial \<noteq> Some (u ''correct'')"
    by (simp add: judged_partial_def no_fields_def u_def)
  show ?thesis
    using other_evaluation_starts_guidance [OF p j e, of "u ''def f''"]
    by (simp add: judged_partial_def no_fields_def get_default_def)
qed

text \<open>
  C7. When a code submission, made while waiting for code or during guidance that is not
  exhausted, is evaluated as \<open>correct\<close> and the follow-up question is generated, the
  session goes to FOLLOWUP with the follow-up tracker reset and holding exactly that first
  question, and the reply is the evaluation reply, a blank line and the question (the
  question alone when the evaluation reply is empty).
\<close>

theorem correct_submission_starts_followup:
  assumes "problem s \<noteq> None"
    and "recognize_intent env s user_input n = (Inr (SUBMIT_CODE, intent_reply), n1)"
    and "llm_call_json env n1 = Inr response"
    and "r_evaluation response = Some (u ''correct'')"
    and "llm_call_json env (Suc n1) = Inr response2"
    and "reply = get_default (r_reply response) []"
    and "question = get_default (r_question response2) default_question"
    and "s' = s\<lparr>user_code := Some user_input, phase := FOLLOWUP,
                 followup_state := (followup_state s)\<lparr>questions_asked := 1,
                   questions_history := [question]\<rparr>\<rparr>"
    and "answer = (if reply \<noteq> [] then reply @ [10, 10] @ question else question)"
  shows "handle_waiting_code env s user_input n = (Inr answer, s', Suc (Suc n1))
       \<and> (\<not> is_exhausted (guidance_state s) \<longrightarrow>
            handle_guiding env s user_input n = (Inr answer, s', Suc (Suc n1)))"
  using assms evaluate_correct [of s env n1 response response2 user_input]
  by (simp add: handle_waiting_code_def handle_guiding_def)

theorem correct_submission_starts_followup_witness:
  "handle_waiting_code (example_env [judged_correct, asks_why]) (example_session WAITING_CODE)
       (u ''def f'') 0 =
     (Inr (u ''Good.'' @ [10, 10] @ u ''Why?''),
      (example_session WAITING_CODE)\<lparr>user_code := Some (u ''def f''), phase := FOLLOWUP,
         followup_state := (followup_state (example_session WAITING_CODE))\<lparr>questions_asked := 1,
           questions_history := [u ''Why?'']\<rparr>\<rparr>, 2)"
proof -
  let ?env = "example_env [judged_correct, asks_why]"
  let ?s = "example_session WAITING_CODE"
  have p: "problem ?s \<noteq> None"
    by (simp add: example_session_sel)
  have i: "recognize_intent ?env ?s (u ''def f'') 0 = (Inr (SUBMIT_CODE, []), 0)"
    by (rule intent_def_f)
  have j1: "llm_call_json ?env 0 = Inr judged_correct"
    by (simp add: example_env_sel scripted_0)
  have e: "r_evaluation judged_correct = Some (u ''correct'')"
    by (simp add: judged_correct_def)
  have j2: "llm_call_json ?env (Suc 0) = Inr asks_why"
    by (simp add: example_env_sel scripted_Suc scripted_0)
  show ?thesis
    using correct_submission_starts_followup [OF p i j1 e j2 refl refl refl refl]
    by (simp add: get_default_def u_def judged_correct_def asks_why_def no_fields_def)
qed


section \<open>The guidance handler\<close>

text \<open>
  C8. In GUIDING, for a session with a problem: when the attempts are already exhausted at
  the start of the turn (five or more of five), the session goes to TEACHING and the
  outcome is the teaching call's; on a guided turn (the intent is neither a code submission
  nor a skip) where \<open>user_on_right_track\<close> is not true and the attempt increment reports
  exhaustion, the session goes to TEACHING at once and the outcome is the teaching call's,
  not the guidance reply; and when \<open>user_on_right_track\<close> is true, the guidance reply is
  returned and the phase is left as it is.
\<close>

theorem guiding_exhaustion_forces_teaching:
  assumes "problem s \<noteq> None"
  shows "(is_exhausted (guidance_state s) \<longrightarrow>
            handle_guiding env s user_input n = (llm_call env n, s\<lparr>phase := TEACHING\<rparr>, Suc n))
       \<and> (\<not> is_exhausted (guidance_state s)
            \<and> recognize_intent env s user_input n = (Inr (intent, intent_reply), n1)
            \<and> intent \<noteq> SUBMIT_CODE \<and> intent \<noteq> SKIP_PROBLEM
            \<and> llm_call_json env n1 = Inr response
            \<and> r_user_on_right_track response \<noteq> Some True
            \<and> \<not> fst (increment_attempt (guidance_state s)) \<longrightarrow>
            handle_guiding env s user_input n =
              (llm_call env (Suc n1),
               s\<lparr>guidance_state := snd (increment_attempt (guidance_state s)), phase := TEACHING\<rparr>,
               Suc (Suc n1)))
       \<and> (\<not> is_exhausted (guidance_state s)
            \<and> recognize_intent env s user_input n = (Inr (intent, intent_reply), n1)
            \<and> intent \<noteq> SUBMIT_CODE \<and> intent \<noteq> SKIP_PROBLEM
            \<and> llm_call_json env n1 = Inr response
            \<and> r_user_on_right_track response = Some True \<longrightarrow>
            handle_guiding env s user_input n =
              (Inr (get_default (r_reply response) guidance_default_reply),
               s\<lparr>guidance_state := snd (increment_attempt (guidance_state s))\<rparr>,
               Suc n1))
       \<and> (max_attempts (guidance_state s) = 5 \<longrightarrow>
            (is_exhausted (guidance_state s) \<longleftrightarrow> 5 \<le> attempt_count (guidance_state s))
          \<and> (fst (increment_attempt (guidance_state s)) \<longleftrightarrow> attempt_count (guidance_state s) + 1 < 5))"
  using assms
  apply (intro conjI impI)
      apply (simp add: handle_guiding_def generate_teaching_def session_ops)
     apply (cases "r_user_on_right_track response")
      apply (simp_all add: handle_guiding_def generate_teaching_def session_ops get_default_def
      case_prod_beta Let_def)
   apply (simp add: is_exhausted_def)
  apply (simp add: increment_attempt_def Let_def)
  done

theorem guiding_exhaustion_forces_teaching_witness:
  "handle_guiding (example_env [no_fields, off_track]) (guiding_session 4) (u ''hm'') 0 =
     (Inr (u ''lesson''),
      (guiding_session 4)\<lparr>guidance_state := snd (increment_attempt (guidance_state (guiding_session 4))),
         phase := TEACHING\<rparr>, 3)
   \<and> attempt_count (snd (increment_attempt (guidance_state (guiding_session 4)))) = 5"
proof -
  let ?env = "example_env [no_fields, off_track]"
  let ?s = "guiding_session 4"
  have p: "problem ?s \<noteq> None"
    by (simp add: guiding_session_def example_session_sel)
  have g: "guidance_state ?s = GuidanceState_default\<lparr>attempt_count := 4, current_hint_level := 3\<rparr>"
    by (simp add: guiding_session_def)
  have x: "\<not> is_exhausted (guidance_state ?s)"
    by (simp add: g is_exhausted_def GuidanceState_default_def)
  have i: "recognize_intent ?env ?s (u ''hm'') 0 = (Inr (OTHER, []), Suc 0)"
    by (subst intent_hm) (simp add: no_fields_def get_default_def UserIntent_of_def u_def)
  have j: "llm_call_json ?env (Suc 0) = Inr off_track"
    by (simp add: example_env_sel scripted_Suc scripted_0)
  have t: "r_user_on_right_track off_track \<noteq> Some True"
    by (simp add: off_track_def no_fields_def)
  have a: "\<not> fst (increment_attempt (guidance_state ?s))"
    by (simp add: g increment_attempt_def GuidanceState_default_def)
  have c: "attempt_count (snd (increment_attempt (guidance_state ?s))) = 5"
    by (simp add: g increment_attempt_def GuidanceState_default_def)
  show ?thesis
    using guiding_exhaustion_forces_teaching [OF p, where env = ?env and user_input = "u ''hm''"
        and n = 0 and intent = OTHER and intent_reply = "[]" and ?n1.0 = "Suc 0"
        and response = off_track] x i j t a c
    by (simp add: example_env_sel)
qed


section \<open>The follow-up handler\<close>

text \<open>
  C1 (as amended). In FOLLOWUP with two of three questions asked, when the learner answers
  and the evaluation comes back: if it carries a non-empty \<open>next_question\<close>, that question
  is appended, the tracker is complete (three asked), the session goes to COMPLETED, and
  the closing remark is appended to the reply unless the reply already holds one of the two
  closing words; if it carries no \<open>next_question\<close> (or an empty one), the tracker and the
  phase stay as they are and the reply is returned unchanged.
\<close>

theorem followup_answer_at_two_of_three:
  assumes "problem s \<noteq> None"
    and "questions_asked (followup_state s) = 2"
    and "total_questions (followup_state s) = 3"
    and "llm_call_json env n = Inr response"
    and "reply = get_default (r_reply response) []"
    and "next_q = get_default (r_next_question response) []"
  shows "(next_q \<noteq> [] \<longrightarrow>
            handle_followup env s user_input n =
              (Inr (if \<not> contains congratulation_word reply \<and> \<not> contains completion_word reply
                    then reply @ closing_remark else reply),
               s\<lparr>followup_state := (followup_state s)\<lparr>questions_history :=
                     questions_history (followup_state s) @ [next_q], questions_asked := 3\<rparr>,
                 phase := COMPLETED\<rparr>,
               Suc n))
       \<and> (next_q = [] \<longrightarrow> handle_followup env s user_input n = (Inr reply, s, Suc n))"
  using assms
  by (simp add: handle_followup_def is_complete_def add_question_def session_ops Let_def)

theorem followup_answer_at_two_of_three_witness:
  "handle_followup (example_env [answer_good\<lparr>r_next_question := Some (u ''And space?'')\<rparr>])
      followup_session (u ''It is linear.'') 0 =
     (Inr (u ''Right.'' @ closing_remark),
      followup_session\<lparr>followup_state := (followup_state followup_session)\<lparr>questions_history :=
            [u ''Why?'', u ''How fast?'', u ''And space?''], questions_asked := 3\<rparr>,
        phase := COMPLETED\<rparr>, Suc 0)"
proof -
  let ?r = "answer_good\<lparr>r_next_question := Some (u ''And space?'')\<rparr>"
  have p: "problem followup_session \<noteq> None"
    by (simp add: followup_session_def example_session_sel)
  have a: "questions_asked (followup_state followup_session) = 2"
    by (simp add: followup_session_def)
  have t: "total_questions (followup_state followup_session) = 3"
    by (simp add: followup_session_def FollowUpState_default_def)
  have j: "llm_call_json (example_env [?r]) 0 = Inr ?r"
    by (simp add: example_env_sel scripted_0)
  have c: "\<not> contains congratulation_word (u ''Right.'') \<and> \<not> contains completion_word (u ''Right.'')"
    by (simp add: congratulation_word_def completion_word_def u_def)
  have h: "questions_history (followup_state followup_session) = [u ''Why?'', u ''How fast?'']"
    by (simp add: followup_session_def)
  show ?thesis
    using followup_answer_at_two_of_three [OF p a t j refl refl, of "u ''It is linear.''"] c h
    by (simp add: answer_good_def no_fields_def get_default_def u_def)
qed

text \<open>
  The claim as stated fails: with two of three asked, an evaluation \<open>good\<close> and no
  \<open>next_question\<close>, the turn ends in FOLLOWUP with two questions asked.
\<close>

theorem followup_without_next_question_counterexample:
  "phase followup_session = FOLLOWUP
   \<and> questions_asked (followup_state followup_session) = 2
   \<and> total_questions (followup_state followup_session) = 3
   \<and> llm_call_json (example_env [answer_good]) 0 = Inr answer_good
   \<and> r_answer_quality answer_good = Some (u ''good'')
   \<and> r_next_question answer_good = None
   \<and> fst (process_turn (example_env [answer_good]) followup_session (u ''It is linear.'') 0)
        = Inr (u ''Right.'')
   \<and> phase (fst (snd (process_turn (example_env [answer_good]) followup_session
        (u ''It is linear.'') 0))) = FOLLOWUP
   \<and> questions_asked (followup_state (fst (snd (process_turn (example_env [answer_good])
        followup_session (u ''It is linear.'') 0)))) = 2"
  by (simp add: process_turn_alt handle_followup_def is_complete_def session_ops Let_def
      followup_session_def example_session_sel example_env_sel scripted_0 answer_good_def
      no_fields_def get_default_def FollowUpState_default_def)


section \<open>Failures of a turn\<close>

lemmas handler_defs = handle_waiting_problem_def handle_waiting_code_def handle_guiding_def
  handle_followup_def handle_teaching_def handle_completed_def evaluate_and_respond_def
  handle_help_request_def handle_skip_def answer_post_teaching_question_def
  generate_teaching_def generate_followup_question_def

lemma dispatch_messages:
  "messages (fst (snd (dispatch ph env s user_input n))) = messages s"
  by (cases ph)
     (auto simp add: handler_defs session_ops Let_def case_prod_beta
        split: prod.splits sum.splits if_splits)

lemma recognize_intent_calls:
  "recognize_intent env s user_input n = (r, n1) \<Longrightarrow>
     (case r of Inl e \<Rightarrow> n1 = Suc n \<and> llm_call_json env n = Inl e | Inr x \<Rightarrow> n \<le> n1)"
  by (auto simp add: recognize_intent_def Let_def split: if_splits sum.splits)

lemma sub_failures:
  "generate_teaching env s n = (Inl e, s', n') \<Longrightarrow> failure_origin env n e n'"
  "generate_followup_question env s n = (Inl e, s', n') \<Longrightarrow> failure_origin env n e n'"
  "handle_help_request env s user_input n = (Inl e, s', n') \<Longrightarrow> failure_origin env n e n'"
  "answer_post_teaching_question env s user_input n = (Inl e, s', n') \<Longrightarrow> failure_origin env n e n'"
  by (auto simp add: generate_teaching_def generate_followup_question_def handle_help_request_def
      answer_post_teaching_question_def failure_origin_def Let_def split: if_splits sum.splits)

lemma failure_origin_mono: "failure_origin env n1 e n' \<Longrightarrow> n \<le> n1 \<Longrightarrow> failure_origin env n e n'"
  by (auto simp add: failure_origin_def)

lemma evaluate_failure:
  "evaluate_and_respond env s user_input n = (Inl e, s', n') \<Longrightarrow> failure_origin env n e n'"
  by (auto simp add: evaluate_and_respond_def generate_followup_question_def failure_origin_def
      Let_def split: if_splits sum.splits prod.splits)

lemma skip_failure:
  "handle_skip env s n = (Inl e, s', n') \<Longrightarrow> failure_origin env n e n'"
  by (auto simp add: handle_skip_def generate_teaching_def failure_origin_def
      Let_def split: if_splits sum.splits prod.splits)

lemma waiting_code_failure:
  assumes "handle_waiting_code env s user_input n = (Inl e, s', n')"
  shows "failure_origin env n e n'"
proof -
  obtain r n1 where ri: "recognize_intent env s user_input n = (r, n1)"
    by (cases "recognize_intent env s user_input n")
  show ?thesis
  proof (cases r)
    case (Inl e0)
    with ri recognize_intent_calls [OF ri] assms show ?thesis
      by (auto simp add: handle_waiting_code_def failure_origin_def)
  next
    case (Inr x)
    then obtain intent ir where x: "r = Inr (intent, ir)" by (cases x) simp
    have le: "n \<le> n1" using recognize_intent_calls [OF ri] x by simp
    have "failure_origin env n1 e n'"
      using assms ri x
      by (auto simp add: handle_waiting_code_def split: if_splits
          dest: evaluate_failure skip_failure sub_failures)
    then show ?thesis using le by (rule failure_origin_mono)
  qed
qed


lemma guiding_failure:
  assumes "handle_guiding env s user_input n = (Inl e, s', n')"
  shows "failure_origin env n e n'"
proof (cases "is_exhausted (guidance_state s)")
  case True
  with assms show ?thesis
    by (auto simp add: handle_guiding_def dest: sub_failures)
next
  case False
  obtain r n1 where ri: "recognize_intent env s user_input n = (r, n1)"
    by (cases "recognize_intent env s user_input n")
  show ?thesis
  proof (cases r)
    case (Inl e0)
    with ri recognize_intent_calls [OF ri] assms False show ?thesis
      by (auto simp add: handle_guiding_def failure_origin_def)
  next
    case (Inr x)
    then obtain intent ir where x: "r = Inr (intent, ir)" by (cases x) simp
    have le: "n \<le> n1" using recognize_intent_calls [OF ri] x by simp
    have "failure_origin env n1 e n'"
      using assms ri x False
      by (auto simp add: handle_guiding_def Let_def case_prod_beta generate_teaching_def
          failure_origin_def session_ops
          split: if_splits sum.splits dest: evaluate_failure skip_failure)
    then show ?thesis using le by (rule failure_origin_mono)
  qed
qed

lemma followup_failure:
  "handle_followup env s user_input n = (Inl e, s', n') \<Longrightarrow> failure_origin env n e n'"
  by (auto simp add: handle_followup_def Let_def failure_origin_def generate_followup_question_def
      split: if_splits sum.splits)

lemma dispatch_failure:
  "dispatch ph env s user_input n = (Inl e, s', n') \<Longrightarrow> failure_origin env n e n'"
  by (cases ph)
     (auto simp add: handle_waiting_problem_def handle_teaching_def handle_completed_def
        dest: waiting_code_failure guiding_failure followup_failure sub_failures)

lemma failing_evaluation_turn:
  "process_turn (example_env []) (example_session WAITING_CODE) (u ''def f'') 0 =
     (Inl (CollaboratorError 0),
      (example_session WAITING_CODE)\<lparr>messages := [\<lparr>role = u ''user'', content = u ''def f''\<rparr>],
         user_code := Some (u ''def f'')\<rparr>, Suc 0)"
  by (simp add: process_turn_alt handle_waiting_code_def intent_def_f evaluate_and_respond_def
      example_session_sel example_env_sel scripted_Nil add_message_def)

lemma example_session_code: "user_code (example_session ph) = None"
  by (simp add: example_session_def create_session_def)


lemma made_call_none: "\<not> made_call_fails env n n e k"
  by (simp add: made_call_fails_def)

lemma made_call_one:
  "made_call_fails env n (Suc n) e k \<longleftrightarrow>
     k = n \<and> llm_call env n = Inl e \<and> llm_call_json env n = Inl e"
  by (cases "k = n") (auto simp add: made_call_fails_def)

lemma made_call_two:
  "made_call_fails env n (Suc (Suc n)) e k \<longleftrightarrow>
     (k = n \<and> llm_call env n = Inl e \<and> llm_call_json env n = Inl e)
   \<or> (k = Suc n \<and> llm_call env (Suc n) = Inl e \<and> llm_call_json env (Suc n) = Inl e)"
  by (cases "k = n"; cases "k = Suc n") (auto simp add: made_call_fails_def)

lemmas made_call_counts = made_call_none made_call_one made_call_two

lemma intent_made_call:
  "recognize_intent env s user_input n = (r, n1) \<Longrightarrow> made_call_fails env n n1 e k \<Longrightarrow>
     r = Inl e \<and> n1 = Suc k"
  by (auto simp add: recognize_intent_def made_call_counts Let_def
      split: if_splits sum.splits)

lemma sub_made_call:
  "generate_teaching env s n = (r, s', n') \<Longrightarrow> made_call_fails env n n' e k \<Longrightarrow>
     r = Inl e \<and> n' = Suc k"
  "generate_followup_question env s n = (r, s', n') \<Longrightarrow> made_call_fails env n n' e k \<Longrightarrow>
     r = Inl e \<and> n' = Suc k"
  "handle_help_request env s user_input n = (r, s', n') \<Longrightarrow> made_call_fails env n n' e k \<Longrightarrow>
     r = Inl e \<and> n' = Suc k"
  "answer_post_teaching_question env s user_input n = (r, s', n') \<Longrightarrow>
     made_call_fails env n n' e k \<Longrightarrow> r = Inl e \<and> n' = Suc k"
  by (auto simp add: generate_teaching_def generate_followup_question_def handle_help_request_def
      answer_post_teaching_question_def made_call_counts Let_def
      split: if_splits sum.splits)

lemma evaluate_made_call:
  "evaluate_and_respond env s user_input n = (r, s', n') \<Longrightarrow> made_call_fails env n n' e k \<Longrightarrow>
     r = Inl e \<and> n' = Suc k"
  by (auto simp add: evaluate_and_respond_def generate_followup_question_def made_call_counts
      Let_def split: if_splits sum.splits prod.splits)

lemma skip_made_call:
  "handle_skip env s n = (r, s', n') \<Longrightarrow> made_call_fails env n n' e k \<Longrightarrow>
     r = Inl e \<and> n' = Suc k"
  by (auto simp add: handle_skip_def generate_teaching_def made_call_counts
      Let_def split: if_splits sum.splits prod.splits)

lemma followup_made_call:
  "handle_followup env s user_input n = (r, s', n') \<Longrightarrow> made_call_fails env n n' e k \<Longrightarrow>
     r = Inl e \<and> n' = Suc k"
  by (auto simp add: handle_followup_def generate_followup_question_def made_call_counts
      Let_def split: if_splits sum.splits)

lemma made_call_split:
  assumes "made_call_fails env n n' e k"
  shows "made_call_fails env n n1 e k \<or> made_call_fails env n1 n' e k"
  using assms by (auto simp add: made_call_fails_def)

lemma after_intent_made_call:
  assumes "recognize_intent env s user_input n = (Inr x, n1)"
    and "made_call_fails env n n' e k"
  shows "made_call_fails env n1 n' e k"
  using made_call_split [OF assms(2), of n1] intent_made_call [OF assms(1), of e k]
  by auto

lemma waiting_code_made_call:
  assumes "handle_waiting_code env s user_input n = (r, s', n')"
    and "made_call_fails env n n' e k"
  shows "r = Inl e \<and> n' = Suc k"
proof (cases rule: intent_cases [of env s user_input n])
  case (fails e0 n1)
  with assms intent_made_call [OF fails, of e k] show ?thesis
    by (simp add: handle_waiting_code_def)
next
  case (intent i ir n1)
  note m = after_intent_made_call [OF intent assms(2)]
  show ?thesis
    using assms(1) intent m
    by (auto simp add: handle_waiting_code_def made_call_none split: if_splits
        dest: evaluate_made_call skip_made_call sub_made_call)
qed

lemma guiding_made_call:
  assumes "handle_guiding env s user_input n = (r, s', n')"
    and "made_call_fails env n n' e k"
  shows "r = Inl e \<and> n' = Suc k"
proof (cases "is_exhausted (guidance_state s)")
  case True
  with assms show ?thesis
    by (auto simp add: handle_guiding_def dest: sub_made_call)
next
  case False
  show ?thesis
  proof (cases rule: intent_cases [of env s user_input n])
    case (fails e0 n1)
    with assms False intent_made_call [OF fails, of e k] show ?thesis
      by (simp add: handle_guiding_def)
  next
    case (intent i ir n1)
    note m = after_intent_made_call [OF intent assms(2)]
    show ?thesis
      using assms(1) intent m False
      by (auto simp add: handle_guiding_def made_call_counts Let_def case_prod_beta
          generate_teaching_def session_ops
          split: if_splits sum.splits dest: evaluate_made_call skip_made_call)
  qed
qed

lemma dispatch_made_call:
  assumes "dispatch ph env s user_input n = (r, s', n')"
    and "made_call_fails env n n' e k"
  shows "r = Inl e \<and> n' = Suc k"
  using assms
  by (cases ph)
     (auto simp add: handle_waiting_problem_def handle_teaching_def handle_completed_def
        made_call_none
        dest: waiting_code_made_call guiding_made_call followup_made_call sub_made_call)

lemma process_turn_made_call:
  assumes "made_call_fails env n (snd (snd (process_turn env s user_input n))) e k"
  shows "fst (process_turn env s user_input n) = Inl e
       \<and> snd (snd (process_turn env s user_input n)) = Suc k"
proof -
  obtain r s2 n2 where d:
    "dispatch (phase s) env (add_message s (u ''user'') user_input) user_input n = (r, s2, n2)"
    by (cases "dispatch (phase s) env (add_message s (u ''user'') user_input) user_input n")
  with assms have "made_call_fails env n n2 e k"
    by (simp add: process_turn_alt)
  from dispatch_made_call [OF d this] d show ?thesis
    by (simp add: process_turn_alt)
qed

lemmas phase_ops =
  transition_to_def start_guidance_def start_followup_def start_teaching_def complete_def

lemma turn_sites:
  assumes p: "problem s \<noteq> None"
    and s1: "s1 = add_message s (u ''user'') user_input"
  shows intent_site:
      "(phase s = WAITING_CODE \<or> phase s = GUIDING \<and> \<not> is_exhausted (guidance_state s))
       \<and> keyword_free env user_input \<and> llm_call_json env n = Inl e \<longrightarrow>
       process_turn env s user_input n = (Inl e, s1, Suc n)"
    and evaluation_site:
      "(phase s = WAITING_CODE \<or> phase s = GUIDING \<and> \<not> is_exhausted (guidance_state s))
       \<and> recognize_intent env s1 user_input n = (Inr (SUBMIT_CODE, ir), n1)
       \<and> llm_call_json env n1 = Inl e \<longrightarrow>
       process_turn env s user_input n = (Inl e, s1\<lparr>user_code := Some user_input\<rparr>, Suc n1)"
    and question_site:
      "(phase s = WAITING_CODE \<or> phase s = GUIDING \<and> \<not> is_exhausted (guidance_state s))
       \<and> recognize_intent env s1 user_input n = (Inr (SUBMIT_CODE, ir), n1)
       \<and> llm_call_json env n1 = Inr response \<and> r_evaluation response = Some (u ''correct'')
       \<and> llm_call_json env (Suc n1) = Inl e \<longrightarrow>
       process_turn env s user_input n
         = (Inl e, start_followup (s1\<lparr>user_code := Some user_input\<rparr>), Suc (Suc n1))"
    and skip_site:
      "(phase s = WAITING_CODE \<or> phase s = GUIDING \<and> \<not> is_exhausted (guidance_state s))
       \<and> recognize_intent env s1 user_input n = (Inr (SKIP_PROBLEM, ir), n1)
       \<and> llm_call env n1 = Inl e \<longrightarrow>
       process_turn env s user_input n = (Inl e, start_teaching s1, Suc n1)"
    and help_site:
      "phase s = WAITING_CODE
       \<and> recognize_intent env s1 user_input n = (Inr (ASK_FOR_HELP, ir), n1)
       \<and> llm_call_json env n1 = Inl e \<longrightarrow>
       process_turn env s user_input n = (Inl e, start_guidance s1, Suc n1)"
    and exhausted_site:
      "phase s = GUIDING \<and> is_exhausted (guidance_state s) \<and> llm_call env n = Inl e \<longrightarrow>
       process_turn env s user_input n = (Inl e, start_teaching s1, Suc n)"
    and guidance_site:
      "phase s = GUIDING \<and> \<not> is_exhausted (guidance_state s)
       \<and> recognize_intent env s1 user_input n = (Inr (intent, ir), n1)
       \<and> intent \<noteq> SUBMIT_CODE \<and> intent \<noteq> SKIP_PROBLEM
       \<and> llm_call_json env n1 = Inl e \<longrightarrow>
       process_turn env s user_input n = (Inl e, s1, Suc n1)"
    and exhausting_site:
      "phase s = GUIDING \<and> \<not> is_exhausted (guidance_state s)
       \<and> recognize_intent env s1 user_input n = (Inr (intent, ir), n1)
       \<and> intent \<noteq> SUBMIT_CODE \<and> intent \<noteq> SKIP_PROBLEM
       \<and> llm_call_json env n1 = Inr response
       \<and> r_user_on_right_track response \<noteq> Some True
       \<and> \<not> fst (increment_attempt (guidance_state s))
       \<and> llm_call env (Suc n1) = Inl e \<longrightarrow>
       process_turn env s user_input n
         = (Inl e,
            start_teaching (s1\<lparr>guidance_state := snd (increment_attempt (guidance_state s))\<rparr>),
            Suc (Suc n1))"
    and followup_site:
      "phase s = FOLLOWUP \<and> \<not> is_complete (followup_state s)
       \<and> llm_call_json env n = Inl e \<longrightarrow>
       process_turn env s user_input n = (Inl e, s1, Suc n)"
    and teaching_site:
      "phase s = TEACHING \<and> llm_call env n = Inl e \<longrightarrow>
       process_turn env s user_input n = (Inl e, s1, Suc n)"
proof -
  have q: "problem s1 \<noteq> None" "phase s1 = phase s" "guidance_state s1 = guidance_state s"
    "followup_state s1 = followup_state s"
    using p by (simp_all add: s1 add_message_def)
  show "(phase s = WAITING_CODE \<or> phase s = GUIDING \<and> \<not> is_exhausted (guidance_state s))
       \<and> keyword_free env user_input \<and> llm_call_json env n = Inl e \<longrightarrow>
       process_turn env s user_input n = (Inl e, s1, Suc n)"
    using q
    by (auto simp add: process_turn_alt s1 [symmetric] handle_waiting_code_def handle_guiding_def
        recognize_intent_def keyword_free_def)
  show "(phase s = WAITING_CODE \<or> phase s = GUIDING \<and> \<not> is_exhausted (guidance_state s))
       \<and> recognize_intent env s1 user_input n = (Inr (SUBMIT_CODE, ir), n1)
       \<and> llm_call_json env n1 = Inl e \<longrightarrow>
       process_turn env s user_input n = (Inl e, s1\<lparr>user_code := Some user_input\<rparr>, Suc n1)"
    using q
    by (auto simp add: process_turn_alt s1 [symmetric] handle_waiting_code_def handle_guiding_def
        evaluate_and_respond_def)
  show "(phase s = WAITING_CODE \<or> phase s = GUIDING \<and> \<not> is_exhausted (guidance_state s))
       \<and> recognize_intent env s1 user_input n = (Inr (SUBMIT_CODE, ir), n1)
       \<and> llm_call_json env n1 = Inr response \<and> r_evaluation response = Some (u ''correct'')
       \<and> llm_call_json env (Suc n1) = Inl e \<longrightarrow>
       process_turn env s user_input n
         = (Inl e, start_followup (s1\<lparr>user_code := Some user_input\<rparr>), Suc (Suc n1))"
    using q
    by (auto simp add: process_turn_alt s1 [symmetric] handle_waiting_code_def handle_guiding_def
        evaluate_and_respond_def generate_followup_question_def get_default_def phase_ops)
  show "(phase s = WAITING_CODE \<or> phase s = GUIDING \<and> \<not> is_exhausted (guidance_state s))
       \<and> recognize_intent env s1 user_input n = (Inr (SKIP_PROBLEM, ir), n1)
       \<and> llm_call env n1 = Inl e \<longrightarrow>
       process_turn env s user_input n = (Inl e, start_teaching s1, Suc n1)"
    using q
    by (auto simp add: process_turn_alt s1 [symmetric] handle_waiting_code_def handle_guiding_def
        handle_skip_def generate_teaching_def phase_ops)
  show "phase s = WAITING_CODE
       \<and> recognize_intent env s1 user_input n = (Inr (ASK_FOR_HELP, ir), n1)
       \<and> llm_call_json env n1 = Inl e \<longrightarrow>
       process_turn env s user_input n = (Inl e, start_guidance s1, Suc n1)"
    using q
    by (auto simp add: process_turn_alt s1 [symmetric] handle_waiting_code_def
        handle_help_request_def phase_ops)
  show "phase s = GUIDING \<and> is_exhausted (guidance_state s) \<and> llm_call env n = Inl e \<longrightarrow>
       process_turn env s user_input n = (Inl e, start_teaching s1, Suc n)"
    using q
    by (auto simp add: process_turn_alt s1 [symmetric] handle_guiding_def generate_teaching_def
        phase_ops)
  show "phase s = GUIDING \<and> \<not> is_exhausted (guidance_state s)
       \<and> recognize_intent env s1 user_input n = (Inr (intent, ir), n1)
       \<and> intent \<noteq> SUBMIT_CODE \<and> intent \<noteq> SKIP_PROBLEM
       \<and> llm_call_json env n1 = Inl e \<longrightarrow>
       process_turn env s user_input n = (Inl e, s1, Suc n1)"
    using q
    by (auto simp add: process_turn_alt s1 [symmetric] handle_guiding_def)
  show "phase s = GUIDING \<and> \<not> is_exhausted (guidance_state s)
       \<and> recognize_intent env s1 user_input n = (Inr (intent, ir), n1)
       \<and> intent \<noteq> SUBMIT_CODE \<and> intent \<noteq> SKIP_PROBLEM
       \<and> llm_call_json env n1 = Inr response
       \<and> r_user_on_right_track response \<noteq> Some True
       \<and> \<not> fst (increment_attempt (guidance_state s))
       \<and> llm_call env (Suc n1) = Inl e \<longrightarrow>
       process_turn env s user_input n
         = (Inl e,
            start_teaching (s1\<lparr>guidance_state := snd (increment_attempt (guidance_state s))\<rparr>),
            Suc (Suc n1))"
    using q
    by (cases "r_user_on_right_track response")
       (auto simp add: process_turn_alt s1 [symmetric] handle_guiding_def generate_teaching_def
          phase_ops get_default_def case_prod_beta Let_def)
  show "phase s = FOLLOWUP \<and> \<not> is_complete (followup_state s)
       \<and> llm_call_json env n = Inl e \<longrightarrow>
       process_turn env s user_input n = (Inl e, s1, Suc n)"
    using q
    by (auto simp add: process_turn_alt s1 [symmetric] handle_followup_def
        generate_followup_question_def Let_def)
  show "phase s = TEACHING \<and> llm_call env n = Inl e \<longrightarrow>
       process_turn env s user_input n = (Inl e, s1, Suc n)"
    using q
    by (auto simp add: process_turn_alt s1 [symmetric] handle_teaching_def
        answer_post_teaching_question_def)
qed

text \<open>
  C2 (as amended). For every turn processed for a known session (with a problem assigned),
  a collaborator call made by the phase handler that fails ends the turn with that failure,
  unchanged, as the outcome of \<open>process_input\<close>: at each place where a handler calls the
  collaborator, a failing call gives the turn the outcome stated below, and in general a
  call made in the turn that fails is the turn's last call and its failure the turn's
  outcome. Conversely a failed turn has failed with the exception of its last collaborator
  call (or with the \<open>AttributeError\<close> of a session without a problem). Nothing is rolled
  back: the user message, appended before the handler runs, stays in the transcript (and
  no reply entry follows it), and the session is left as the handler had made it by the
  time of the call: with the submitted code stored, the follow-up or guidance tracker
  reset and the phase set to FOLLOWUP, GUIDING or TEACHING, the attempt counted.
\<close>

theorem failing_call_propagates:
  assumes "s1 = add_message s (u ''user'') user_input"
  shows
  "(sessions eng sid = Some s \<longrightarrow>
      process_input env eng sid user_input
        = (fst (process_turn env s user_input (llm_calls eng)),
           eng\<lparr>sessions := (sessions eng)
                  (sid \<mapsto> fst (snd (process_turn env s user_input (llm_calls eng)))),
               llm_calls := snd (snd (process_turn env s user_input (llm_calls eng)))\<rparr>))
   \<and> (made_call_fails env n (snd (snd (process_turn env s user_input n))) e k \<longrightarrow>
        fst (process_turn env s user_input n) = Inl e
      \<and> snd (snd (process_turn env s user_input n)) = Suc k)
   \<and> (fst (process_turn env s user_input n) = Inl e \<longrightarrow>
        failure_origin env n e (snd (snd (process_turn env s user_input n)))
      \<and> messages (fst (snd (process_turn env s user_input n))) = messages s1)
   \<and> (problem s \<noteq> None \<longrightarrow>
      ((phase s = WAITING_CODE \<or> phase s = GUIDING \<and> \<not> is_exhausted (guidance_state s))
          \<and> keyword_free env user_input \<and> llm_call_json env n = Inl e \<longrightarrow>
          process_turn env s user_input n = (Inl e, s1, Suc n))
       \<and> ((phase s = WAITING_CODE \<or> phase s = GUIDING \<and> \<not> is_exhausted (guidance_state s))
          \<and> recognize_intent env s1 user_input n = (Inr (SUBMIT_CODE, ir), n1)
          \<and> llm_call_json env n1 = Inl e \<longrightarrow>
          process_turn env s user_input n = (Inl e, s1\<lparr>user_code := Some user_input\<rparr>, Suc n1))
       \<and> ((phase s = WAITING_CODE \<or> phase s = GUIDING \<and> \<not> is_exhausted (guidance_state s))
          \<and> recognize_intent env s1 user_input n = (Inr (SUBMIT_CODE, ir), n1)
          \<and> llm_call_json env n1 = Inr response \<and> r_evaluation response = Some (u ''correct'')
          \<and> llm_call_json env (Suc n1) = Inl e \<longrightarrow>
          process_turn env s user_input n
            = (Inl e, start_followup (s1\<lparr>user_code := Some user_input\<rparr>), Suc (Suc n1)))
       \<and> ((phase s = WAITING_CODE \<or> phase s = GUIDING \<and> \<not> is_exhausted (guidance_state s))
          \<and> recognize_intent env s1 user_input n = (Inr (SKIP_PROBLEM, ir), n1)
          \<and> llm_call env n1 = Inl e \<longrightarrow>
          process_turn env s user_input n = (Inl e, start_teaching s1, Suc n1))
       \<and> (phase s = WAITING_CODE
          \<and> recognize_intent env s1 user_input n = (Inr (ASK_FOR_HELP, ir), n1)
          \<and> llm_call_json env n1 = Inl e \<longrightarrow>
          process_turn env s user_input n = (Inl e, start_guidance s1, Suc n1))
       \<and> (phase s = GUIDING \<and> is_exhausted (guidance_state s) \<and> llm_call env n = Inl e \<longrightarrow>
          process_turn env s user_input n = (Inl e, start_teaching s1, Suc n))
       \<and> (phase s = GUIDING \<and> \<not> is_exhausted (guidance_state s)
          \<and> recognize_intent env s1 user_input n = (Inr (intent, ir), n1)
          \<and> intent \<noteq> SUBMIT_CODE \<and> intent \<noteq> SKIP_PROBLEM
          \<and> llm_call_json env n1 = Inl e \<longrightarrow>
          process_turn env s user_input n = (Inl e, s1, Suc n1))
       \<and> (phase s = GUIDING \<and> \<not> is_exhausted (guidance_state s)
          \<and> recognize_intent env s1 user_input n = (Inr (intent, ir), n1)
          \<and> intent \<noteq> SUBMIT_CODE \<and> intent \<noteq> SKIP_PROBLEM
          \<and> llm_call_json env n1 = Inr response
          \<and> r_user_on_right_track response \<noteq> Some True
          \<and> \<not> fst (increment_attempt (guidance_state s))
          \<and> llm_call env (Suc n1) = Inl e \<longrightarrow>
          process_turn env s user_input n
            = (Inl e,
               start_teaching (s1\<lparr>guidance_state := snd (increment_attempt (guidance_state s))\<rparr>),
               Suc (Suc n1)))
       \<and> (phase s = FOLLOWUP \<and> \<not> is_complete (followup_state s)
          \<and> llm_call_json env n = Inl e \<longrightarrow>
          process_turn env s user_input n = (Inl e, s1, Suc n))
       \<and> (phase s = TEACHING \<and> llm_call env n = Inl e \<longrightarrow>
          process_turn env s user_input n = (Inl e, s1, Suc n)))"
proof -
  have a: "sessions eng sid = Some s \<longrightarrow>
      process_input env eng sid user_input
        = (fst (process_turn env s user_input (llm_calls eng)),
           eng\<lparr>sessions := (sessions eng)
                  (sid \<mapsto> fst (snd (process_turn env s user_input (llm_calls eng)))),
               llm_calls := snd (snd (process_turn env s user_input (llm_calls eng)))\<rparr>)"
    by (simp add: process_input_def split: prod.splits)
  have b: "made_call_fails env n (snd (snd (process_turn env s user_input n))) e k \<longrightarrow>
        fst (process_turn env s user_input n) = Inl e
      \<and> snd (snd (process_turn env s user_input n)) = Suc k"
    using process_turn_made_call by blast
  have c: "fst (process_turn env s user_input n) = Inl e \<longrightarrow>
        failure_origin env n e (snd (snd (process_turn env s user_input n)))
      \<and> messages (fst (snd (process_turn env s user_input n))) = messages s1"
  proof
    assume f: "fst (process_turn env s user_input n) = Inl e"
    obtain r s2 n2 where d: "dispatch (phase s) env s1 user_input n = (r, s2, n2)"
      by (cases "dispatch (phase s) env s1 user_input n")
    from f d have r: "r = Inl e"
      by (simp add: process_turn_alt assms)
    have "messages s2 = messages s1"
      using dispatch_messages [of "phase s" env s1 user_input n] d by simp
    moreover have "failure_origin env n e n2"
      using d r by (auto dest: dispatch_failure)
    ultimately show "failure_origin env n e (snd (snd (process_turn env s user_input n)))
      \<and> messages (fst (snd (process_turn env s user_input n))) = messages s1"
      using d r by (simp add: process_turn_alt assms)
  qed
  show ?thesis
    apply (intro conjI)
       apply (rule a)
      apply (rule b)
     apply (rule c)
    apply (rule impI)
    apply (intro conjI)
             apply (rule turn_sites [OF _ assms], assumption)+
    done
qed

theorem failing_call_propagates_witness:
  "problem (example_session WAITING_CODE) \<noteq> None
   \<and> llm_call_json (example_env []) 0 = Inl (CollaboratorError 0)
   \<and> process_turn (example_env []) (example_session WAITING_CODE) (u ''def f'') 0
       = (Inl (CollaboratorError 0),
          (add_message (example_session WAITING_CODE) (u ''user'') (u ''def f''))
             \<lparr>user_code := Some (u ''def f'')\<rparr>, Suc 0)"
proof -
  let ?s = "example_session WAITING_CODE"
  have p: "problem ?s \<noteq> None"
    by (simp add: example_session_sel)
  have ph: "phase ?s = WAITING_CODE"
    by (simp add: example_session_sel)
  have i: "recognize_intent (example_env []) (add_message ?s (u ''user'') (u ''def f''))
      (u ''def f'') 0 = (Inr (SUBMIT_CODE, []), 0)"
    by (rule intent_def_f)
  have j: "llm_call_json (example_env []) 0 = Inl (CollaboratorError 0)"
    by (simp add: example_env_sel scripted_Nil)
  show ?thesis
    using p ph i j failing_call_propagates [OF refl, where s = ?s and env = "example_env []"
        and user_input = "u ''def f''" and n = 0 and ir = "[]" and ?n1.0 = 0
        and e = "CollaboratorError 0"]
    by simp
qed

text \<open>
  The claim as stated fails: when the evaluation call fails, the failed attempt has
  committed the user message to the transcript and has overwritten the submitted code.
\<close>

theorem failed_turn_commits_counterexample:
  "messages (example_session WAITING_CODE) = []
   \<and> user_code (example_session WAITING_CODE) = None
   \<and> llm_call_json (example_env []) 0 = Inl (CollaboratorError 0)
   \<and> fst (process_input (example_env []) (example_engine (example_session WAITING_CODE))
        (u ''s1'') (u ''def f'')) = Inl (CollaboratorError 0)
   \<and> map_option messages
        (sessions (snd (process_input (example_env []) (example_engine (example_session WAITING_CODE))
           (u ''s1'') (u ''def f''))) (u ''s1''))
       = Some [\<lparr>role = u ''user'', content = u ''def f''\<rparr>]
   \<and> map_option user_code
        (sessions (snd (process_input (example_env []) (example_engine (example_session WAITING_CODE))
           (u ''s1'') (u ''def f''))) (u ''s1''))
       = Some (Some (u ''def f''))"
  by (simp add: process_input_def example_engine_def failing_evaluation_turn example_session_sel
      example_env_sel scripted_Nil example_session_code)


section \<open>The guidance tracker\<close>

lemma generate_teaching_state: "fst (snd (generate_teaching env s n)) = s"
  by (simp add: generate_teaching_def)

lemma evaluate_phase_guidance:
  "(guidance_state (fst (snd (evaluate_and_respond env s user_input n))) = guidance_state s
      \<and> (phase (fst (snd (evaluate_and_respond env s user_input n))) = phase s
         \<or> phase (fst (snd (evaluate_and_respond env s user_input n))) = FOLLOWUP))
   \<or> (phase (fst (snd (evaluate_and_respond env s user_input n))) = GUIDING
      \<and> guidance_state (fst (snd (evaluate_and_respond env s user_input n)))
          = guidance_reset (guidance_state s))"
  by (auto simp add: evaluate_and_respond_def generate_followup_question_def session_ops Let_def
      split: sum.splits prod.splits if_splits)

lemma help_phase_guidance:
  "phase (fst (snd (handle_help_request env s user_input n))) = phase s
   \<and> (guidance_state (fst (snd (handle_help_request env s user_input n))) = guidance_state s
      \<or> guidance_state (fst (snd (handle_help_request env s user_input n)))
          = snd (increment_attempt (guidance_state s)))"
  by (auto simp add: handle_help_request_def split: sum.splits)

lemma skip_phase_guidance:
  "guidance_state (fst (snd (handle_skip env s n))) = guidance_state s
   \<and> phase (fst (snd (handle_skip env s n))) \<noteq> GUIDING"
  by (auto simp add: handle_skip_def generate_teaching_def session_ops split: sum.splits)

lemma waiting_code_guidance_turn:
  "guidance_turn s (fst (snd (handle_waiting_code env s user_input n)))"
proof (cases rule: intent_cases [of env s user_input n])
  case (fails e n1)
  then show ?thesis by (simp add: handle_waiting_code_def guidance_turn_def)
next
  case (intent i ir n1)
  show ?thesis
    using evaluate_phase_guidance [of env s user_input n1]
      help_phase_guidance [of env "start_guidance s" user_input n1]
      skip_phase_guidance [of env s n1] intent
    by (cases i) (auto simp add: handle_waiting_code_def guidance_turn_def session_ops)
qed

lemma guiding_guidance_turn:
  assumes "phase s = GUIDING"
  shows "guidance_turn s (fst (snd (handle_guiding env s user_input n)))"
proof (cases "is_exhausted (guidance_state s)")
  case True
  then show ?thesis
    by (simp add: handle_guiding_def generate_teaching_state guidance_turn_def session_ops)
next
  case False
  show ?thesis
  proof (cases rule: intent_cases [of env s user_input n])
    case (fails e n1)
    then show ?thesis using False by (simp add: handle_guiding_def guidance_turn_def)
  next
    case (intent i ir n1)
    show ?thesis
      using evaluate_phase_guidance [of env s user_input n1]
        skip_phase_guidance [of env s n1] intent False assms
      by (cases i)
         (auto simp add: handle_guiding_def guidance_turn_def session_ops Let_def case_prod_beta
            generate_teaching_state split: sum.splits)
  qed
qed

lemma followup_guidance_turn:
  "phase s = FOLLOWUP \<Longrightarrow> guidance_turn s (fst (snd (handle_followup env s user_input n)))"
  by (auto simp add: handle_followup_def generate_followup_question_def guidance_turn_def
      session_ops Let_def split: sum.splits)

lemma dispatch_guidance_turn:
  "guidance_turn s (fst (snd (dispatch (phase s) env s user_input n)))"
proof (cases "phase s")
  case WAITING_PROBLEM
  then show ?thesis by (simp add: handle_waiting_problem_def guidance_turn_def)
next
  case WAITING_CODE
  then show ?thesis by (simp add: waiting_code_guidance_turn)
next
  case GUIDING
  then show ?thesis by (simp add: guiding_guidance_turn)
next
  case FOLLOWUP
  then show ?thesis by (simp add: followup_guidance_turn)
next
  case TEACHING
  then show ?thesis
    by (simp add: handle_teaching_def answer_post_teaching_question_def guidance_turn_def)
next
  case COMPLETED
  then show ?thesis by (simp add: handle_completed_def guidance_turn_def)
qed

lemma process_turn_trackers:
  "guidance_state (fst (snd (process_turn env s user_input n)))
     = guidance_state (fst (snd (dispatch (phase s) env (add_message s (u ''user'') user_input) user_input n)))"
  "followup_state (fst (snd (process_turn env s user_input n)))
     = followup_state (fst (snd (dispatch (phase s) env (add_message s (u ''user'') user_input) user_input n)))"
  "phase (fst (snd (process_turn env s user_input n)))
     = phase (fst (snd (dispatch (phase s) env (add_message s (u ''user'') user_input) user_input n)))"
  by (simp_all add: process_turn_alt add_message_def split: prod.splits sum.splits)

lemma process_turn_guidance_turn:
  "guidance_turn s (fst (snd (process_turn env s user_input n)))"
  using dispatch_guidance_turn [of "add_message s (u ''user'') user_input" env user_input n]
  by (simp add: guidance_turn_def process_turn_trackers add_message_def)

lemma increment_attempt_facts:
  assumes "guidance_inv g" and "\<not> is_exhausted g"
  shows "attempt_count (snd (increment_attempt g)) = attempt_count g + 1"
    and "attempt_count (snd (increment_attempt g)) \<le> 5"
    and "current_hint_level g \<le> current_hint_level (snd (increment_attempt g))"
    and "current_hint_level (snd (increment_attempt g)) \<le> current_hint_level g + 1"
    and "3 \<le> attempt_count (snd (increment_attempt g)) \<longrightarrow>
           current_hint_level (snd (increment_attempt g)) = min 3 (current_hint_level g + 1)"
    and "attempt_count (snd (increment_attempt g)) < 3 \<longrightarrow>
           current_hint_level (snd (increment_attempt g)) = current_hint_level g"
    and "guidance_inv (snd (increment_attempt g))"
  using assms
  by (auto simp add: guidance_inv_def is_exhausted_def increment_attempt_def Let_def)

lemma guidance_reset_inv: "guidance_inv g \<Longrightarrow> guidance_inv (guidance_reset g)"
  by (simp add: guidance_inv_def guidance_reset_def)

lemma guidance_reset_fresh: "guidance_inv g \<Longrightarrow> \<not> is_exhausted (guidance_reset g)"
  by (simp add: guidance_inv_def guidance_reset_def is_exhausted_def)

lemma guidance_turn_inv:
  assumes "guidance_inv (guidance_state s)" and "guidance_turn s s'"
  shows "guidance_inv (guidance_state s')"
  using assms increment_attempt_facts(7) [of "guidance_state s"]
    increment_attempt_facts(7) [OF guidance_reset_inv guidance_reset_fresh, of "guidance_state s"]
    guidance_reset_inv [of "guidance_state s"]
  by (auto simp add: guidance_turn_def)

text \<open>
  C5. The guidance tracker keeps its invariant through every operation on a session: a new
  session has it; every processed turn preserves it (attempts between 0 and the maximum 5,
  hint level between 1 and 3) and changes the tracker only by one counted attempt or by
  the reset that goes with entering GUIDING; a counted attempt adds one to the attempts,
  never lowers the hint level and raises it by at most one, namely to the next tier (at most
  3) exactly when the attempts have reached 3; a reset gives no attempts and level 1, and
  \<open>start_guidance\<close>, the only way into GUIDING, resets. At the engine, processing a turn
  for one session is that turn on its session and leaves every other session as it is, and
  assigning a problem leaves the tracker as it is.
\<close>

theorem guidance_tracker_invariant:
  "guidance_inv (guidance_state (create_session sid))
   \<and> guidance_turn s (fst (snd (process_turn env s user_input n)))
   \<and> (guidance_inv (guidance_state s) \<longrightarrow>
        guidance_inv (guidance_state (fst (snd (process_turn env s user_input n)))))
   \<and> (guidance_inv g \<and> \<not> is_exhausted g \<longrightarrow>
        attempt_count (snd (increment_attempt g)) = attempt_count g + 1
      \<and> attempt_count (snd (increment_attempt g)) \<le> 5
      \<and> current_hint_level g \<le> current_hint_level (snd (increment_attempt g))
      \<and> current_hint_level (snd (increment_attempt g)) \<le> current_hint_level g + 1
      \<and> (3 \<le> attempt_count (snd (increment_attempt g)) \<longrightarrow>
            current_hint_level (snd (increment_attempt g)) = min 3 (current_hint_level g + 1))
      \<and> (attempt_count (snd (increment_attempt g)) < 3 \<longrightarrow>
            current_hint_level (snd (increment_attempt g)) = current_hint_level g))
   \<and> attempt_count (guidance_reset g) = 0 \<and> current_hint_level (guidance_reset g) = 1
   \<and> phase (start_guidance s) = GUIDING
   \<and> guidance_state (start_guidance s) = guidance_reset (guidance_state s)
   \<and> (sessions eng sid = Some s \<longrightarrow>
        sessions (snd (process_input env eng sid user_input)) sid
          = Some (fst (snd (process_turn env s user_input (llm_calls eng))))
      \<and> (\<forall>sid'. sid' \<noteq> sid \<longrightarrow>
            sessions (snd (process_input env eng sid user_input)) sid' = sessions eng sid')
      \<and> map_option guidance_state (sessions (snd (set_problem eng sid p)) sid)
          = Some (guidance_state s))"
proof -
  have a: "guidance_inv (guidance_state (create_session sid))"
    by (simp add: create_session_def GuidanceState_default_def guidance_inv_def)
  have b: "guidance_turn s (fst (snd (process_turn env s user_input n)))"
    by (rule process_turn_guidance_turn)
  have c: "guidance_inv (guidance_state s) \<longrightarrow>
        guidance_inv (guidance_state (fst (snd (process_turn env s user_input n))))"
    using guidance_turn_inv [OF _ b] by blast
  have d: "attempt_count (guidance_reset g) = 0 \<and> current_hint_level (guidance_reset g) = 1
     \<and> phase (start_guidance s) = GUIDING
     \<and> guidance_state (start_guidance s) = guidance_reset (guidance_state s)"
    by (simp add: guidance_reset_def session_ops)
  have e: "sessions eng sid = Some s \<longrightarrow>
        sessions (snd (process_input env eng sid user_input)) sid
          = Some (fst (snd (process_turn env s user_input (llm_calls eng))))
      \<and> (\<forall>sid'. sid' \<noteq> sid \<longrightarrow>
            sessions (snd (process_input env eng sid user_input)) sid' = sessions eng sid')
      \<and> map_option guidance_state (sessions (snd (set_problem eng sid p)) sid)
          = Some (guidance_state s)"
    by (simp add: process_input_def set_problem_def session_ops Let_def split: prod.splits)
  show ?thesis
    using a b c d e increment_attempt_facts [of g] by blast
qed


theorem guidance_tracker_invariant_witness:
  "guidance_inv (guidance_state (guiding_session 4))
   \<and> guidance_inv (guidance_state (fst (snd (process_turn (example_env [no_fields, off_track])
         (guiding_session 4) (u ''hm'') 0))))
   \<and> current_hint_level (snd (increment_attempt (GuidanceState_default\<lparr>attempt_count := 2\<rparr>))) = 2"
proof -
  let ?g = "GuidanceState_default\<lparr>attempt_count := 2\<rparr>"
  have h1: "guidance_inv (guidance_state (guiding_session 4))"
    by (simp add: guiding_session_def guidance_inv_def GuidanceState_default_def)
  have h2: "guidance_inv ?g \<and> \<not> is_exhausted ?g"
    by (simp add: guidance_inv_def is_exhausted_def GuidanceState_default_def)
  show ?thesis
    using h1 h2 guidance_tracker_invariant [of "u ''s1''" "guiding_session 4"
        "example_env [no_fields, off_track]" "u ''hm''" 0 ?g]
    by (simp add: GuidanceState_default_def)
qed


section \<open>The follow-up tracker\<close>

lemma appended_one_add: "appended_one f (add_question f q)"
  by (simp add: appended_one_def add_question_def)

lemma evaluate_phase_followup:
  "(followup_state (fst (snd (evaluate_and_respond env s user_input n))) = followup_state s
      \<and> (phase (fst (snd (evaluate_and_respond env s user_input n))) = phase s
         \<or> phase (fst (snd (evaluate_and_respond env s user_input n))) = GUIDING))
   \<or> (phase (fst (snd (evaluate_and_respond env s user_input n))) = FOLLOWUP
      \<and> (followup_state (fst (snd (evaluate_and_respond env s user_input n)))
            = followup_reset (followup_state s)
         \<or> appended_one (followup_reset (followup_state s))
              (followup_state (fst (snd (evaluate_and_respond env s user_input n))))))"
  by (auto simp add: evaluate_and_respond_def generate_followup_question_def session_ops Let_def
      appended_one_add split: sum.splits prod.splits if_splits)

lemma help_phase_followup:
  "phase (fst (snd (handle_help_request env s user_input n))) = phase s
   \<and> followup_state (fst (snd (handle_help_request env s user_input n))) = followup_state s"
  by (auto simp add: handle_help_request_def split: sum.splits)

lemma skip_phase_followup:
  "followup_state (fst (snd (handle_skip env s n))) = followup_state s
   \<and> phase (fst (snd (handle_skip env s n))) \<noteq> FOLLOWUP"
  by (auto simp add: handle_skip_def generate_teaching_def session_ops split: sum.splits)

lemma waiting_code_followup_turn:
  "phase s = WAITING_CODE \<Longrightarrow> followup_turn s (fst (snd (handle_waiting_code env s user_input n)))"
proof (cases rule: intent_cases [of env s user_input n])
  case (fails e n1)
  then show ?thesis by (simp add: handle_waiting_code_def followup_turn_def)
next
  case (intent i ir n1)
  assume "phase s = WAITING_CODE"
  then show ?thesis
    using evaluate_phase_followup [of env s user_input n1]
      help_phase_followup [of env "start_guidance s" user_input n1]
      skip_phase_followup [of env s n1] intent
    by (cases i) (auto simp add: handle_waiting_code_def followup_turn_def session_ops)
qed

lemma guiding_followup_turn:
  assumes "phase s = GUIDING"
  shows "followup_turn s (fst (snd (handle_guiding env s user_input n)))"
proof (cases "is_exhausted (guidance_state s)")
  case True
  then show ?thesis using assms
    by (simp add: handle_guiding_def generate_teaching_state followup_turn_def session_ops)
next
  case False
  show ?thesis
  proof (cases rule: intent_cases [of env s user_input n])
    case (fails e n1)
    then show ?thesis using False by (simp add: handle_guiding_def followup_turn_def)
  next
    case (intent i ir n1)
    show ?thesis
      using evaluate_phase_followup [of env s user_input n1]
        skip_phase_followup [of env s n1] intent False assms
      by (cases i)
         (auto simp add: handle_guiding_def followup_turn_def session_ops Let_def case_prod_beta
            generate_teaching_state split: sum.splits)
  qed
qed

lemma followup_followup_turn:
  "phase s = FOLLOWUP \<Longrightarrow> followup_turn s (fst (snd (handle_followup env s user_input n)))"
  by (auto simp add: handle_followup_def generate_followup_question_def followup_turn_def
      session_ops Let_def appended_one_add split: sum.splits)

lemma dispatch_followup_turn:
  "followup_turn s (fst (snd (dispatch (phase s) env s user_input n)))"
proof (cases "phase s")
  case WAITING_PROBLEM
  then show ?thesis by (simp add: handle_waiting_problem_def followup_turn_def)
next
  case WAITING_CODE
  then show ?thesis by (simp add: waiting_code_followup_turn)
next
  case GUIDING
  then show ?thesis by (simp add: guiding_followup_turn)
next
  case FOLLOWUP
  then show ?thesis by (simp add: followup_followup_turn)
next
  case TEACHING
  then show ?thesis
    by (simp add: handle_teaching_def answer_post_teaching_question_def followup_turn_def)
next
  case COMPLETED
  then show ?thesis by (simp add: handle_completed_def followup_turn_def)
qed

lemma process_turn_followup_turn:
  "followup_turn s (fst (snd (process_turn env s user_input n)))"
  using dispatch_followup_turn [of "add_message s (u ''user'') user_input" env user_input n]
  by (simp add: followup_turn_def process_turn_trackers add_message_def)

lemma appended_oneD: "appended_one f f' \<Longrightarrow> \<exists>q. f' = add_question f q"
  unfolding appended_one_def by blast

lemma followup_turn_inv:
  assumes "followup_inv (followup_state s)" and "followup_turn s s'"
  shows "followup_inv (followup_state s')"
  using assms
  by (auto simp add: followup_turn_def followup_inv_def add_question_def
      followup_reset_def is_complete_def dest!: appended_oneD)

lemma appended_one_grows:
  "appended_one f f' \<Longrightarrow>
     questions_asked f' = questions_asked f + 1 \<and> prefix (questions_history f) (questions_history f')"
  by (auto simp add: add_question_def dest!: appended_oneD)

lemma followup_turn_cycle:
  assumes "followup_turn s s'"
  shows "phase s = FOLLOWUP \<longrightarrow>
           questions_asked (followup_state s) \<le> questions_asked (followup_state s')
         \<and> prefix (questions_history (followup_state s)) (questions_history (followup_state s'))"
    and "questions_asked (followup_state s') < questions_asked (followup_state s) \<longrightarrow>
           phase s \<noteq> FOLLOWUP \<and> phase s' = FOLLOWUP
         \<and> (followup_state s' = followup_reset (followup_state s)
            \<or> appended_one (followup_reset (followup_state s)) (followup_state s'))"
  using assms
  by (auto simp add: followup_turn_def dest: appended_one_grows)

text \<open>
  C6. The follow-up tracker keeps its invariant through every operation on a session: a
  new session has it; every processed turn preserves it (asked at most the total 3, asked
  equal to the length of the history) and changes the tracker only by appending one
  question or by the reset that goes with entering FOLLOWUP from another phase. Within a
  follow-up cycle, that is on every turn that starts in FOLLOWUP, the count asked does not
  go down and the history only grows at its end; the count goes down only on a turn that
  enters FOLLOWUP from another phase, where the tracker is reset to empty (and the first
  question appended). \<open>start_followup\<close>, the only way into FOLLOWUP, resets the tracker to
  empty. At the engine, processing a turn for one session is that turn on its session and
  leaves every other session as it is, and assigning a problem leaves the tracker as it is.
\<close>

theorem followup_tracker_invariant:
  "followup_inv (followup_state (create_session sid))
   \<and> followup_turn s (fst (snd (process_turn env s user_input n)))
   \<and> (followup_inv (followup_state s) \<longrightarrow>
        followup_inv (followup_state (fst (snd (process_turn env s user_input n)))))
   \<and> (phase s = FOLLOWUP \<longrightarrow>
        questions_asked (followup_state s)
          \<le> questions_asked (followup_state (fst (snd (process_turn env s user_input n))))
      \<and> prefix (questions_history (followup_state s))
           (questions_history (followup_state (fst (snd (process_turn env s user_input n))))))
   \<and> (questions_asked (followup_state (fst (snd (process_turn env s user_input n))))
        < questions_asked (followup_state s) \<longrightarrow>
        phase s \<noteq> FOLLOWUP
      \<and> phase (fst (snd (process_turn env s user_input n))) = FOLLOWUP
      \<and> (followup_state (fst (snd (process_turn env s user_input n)))
            = followup_reset (followup_state s)
         \<or> appended_one (followup_reset (followup_state s))
              (followup_state (fst (snd (process_turn env s user_input n))))))
   \<and> questions_asked (add_question f q) = questions_asked f + 1
   \<and> questions_history (add_question f q) = questions_history f @ [q]
   \<and> questions_asked (followup_reset f) = 0 \<and> questions_history (followup_reset f) = []
   \<and> phase (start_followup s) = FOLLOWUP
   \<and> followup_state (start_followup s) = followup_reset (followup_state s)
   \<and> (sessions eng sid = Some s \<longrightarrow>
        sessions (snd (process_input env eng sid user_input)) sid
          = Some (fst (snd (process_turn env s user_input (llm_calls eng))))
      \<and> (\<forall>sid'. sid' \<noteq> sid \<longrightarrow>
            sessions (snd (process_input env eng sid user_input)) sid' = sessions eng sid')
      \<and> map_option followup_state (sessions (snd (set_problem eng sid p)) sid)
          = Some (followup_state s))"
proof -
  have a: "followup_inv (followup_state (create_session sid))"
    by (simp add: create_session_def FollowUpState_default_def followup_inv_def)
  have b: "followup_turn s (fst (snd (process_turn env s user_input n)))"
    by (rule process_turn_followup_turn)
  have c: "followup_inv (followup_state s) \<longrightarrow>
        followup_inv (followup_state (fst (snd (process_turn env s user_input n))))"
    using followup_turn_inv [OF _ b] by blast
  note d = followup_turn_cycle [OF b]
  have e: "questions_asked (add_question f q) = questions_asked f + 1
     \<and> questions_history (add_question f q) = questions_history f @ [q]
     \<and> questions_asked (followup_reset f) = 0 \<and> questions_history (followup_reset f) = []
     \<and> phase (start_followup s) = FOLLOWUP
     \<and> followup_state (start_followup s) = followup_reset (followup_state s)"
    by (simp add: add_question_def followup_reset_def session_ops)
  have g: "sessions eng sid = Some s \<longrightarrow>
        sessions (snd (process_input env eng sid user_input)) sid
          = Some (fst (snd (process_turn env s user_input (llm_calls eng))))
      \<and> (\<forall>sid'. sid' \<noteq> sid \<longrightarrow>
            sessions (snd (process_input env eng sid user_input)) sid' = sessions eng sid')
      \<and> map_option followup_state (sessions (snd (set_problem eng sid p)) sid)
          = Some (followup_state s)"
    by (simp add: process_input_def set_problem_def session_ops Let_def split: prod.splits)
  show ?thesis
    using a b c d e g by blast
qed

theorem followup_tracker_invariant_witness:
  "followup_inv (followup_state followup_session)
   \<and> phase followup_session = FOLLOWUP
   \<and> followup_inv (followup_state (fst (snd (process_turn
        (example_env [answer_good\<lparr>r_next_question := Some (u ''And space?'')\<rparr>])
        followup_session (u ''It is linear.'') 0))))
   \<and> questions_asked (followup_state followup_session)
       \<le> questions_asked (followup_state (fst (snd (process_turn
        (example_env [answer_good\<lparr>r_next_question := Some (u ''And space?'')\<rparr>])
        followup_session (u ''It is linear.'') 0))))
   \<and> sessions (snd (process_input
        (example_env [answer_good\<lparr>r_next_question := Some (u ''And space?'')\<rparr>])
        (example_engine followup_session) (u ''s1'') (u ''It is linear.''))) (u ''s1'')
      = Some (fst (snd (process_turn
        (example_env [answer_good\<lparr>r_next_question := Some (u ''And space?'')\<rparr>])
        followup_session (u ''It is linear.'') 0)))"
proof -
  have h1: "followup_inv (followup_state followup_session)"
    by (simp add: followup_session_def followup_inv_def FollowUpState_default_def)
  have h2: "sessions (example_engine followup_session) (u ''s1'') = Some followup_session"
    by (simp add: example_engine_def)
  have h3: "llm_calls (example_engine followup_session) = 0"
    by (simp add: example_engine_def)
  have h4: "phase followup_session = FOLLOWUP"
    by (simp add: followup_session_def example_session_sel)
  show ?thesis
    using h1 h2 h3 h4 followup_tracker_invariant [where sid = "u ''s1''" and s = followup_session
        and env = "example_env [answer_good\<lparr>r_next_question := Some (u ''And space?'')\<rparr>]"
        and user_input = "u ''It is linear.''" and n = 0
        and eng = "example_engine followup_session"]
    by simp
qed


section \<open>The intent classifier\<close>

lemma startswith_prefix: "startswith kw s \<longleftrightarrow> prefix kw s"
  by (induction kw s rule: startswith.induct) simp_all

lemma contains_sublist: "contains kw s \<longleftrightarrow> sublist kw s"
  by (induction s) (simp_all add: startswith_prefix sublist_Cons_right)

lemma contains_dropWhile:
  assumes "contains kw s" and "kw \<noteq> []" and "\<not> P (hd kw)"
  shows "contains kw (dropWhile P s)"
  using assms
proof (induction s)
  case Nil
  then show ?case by simp
next
  case (Cons c cs)
  show ?case
  proof (cases "startswith kw (c # cs)")
    case True
    with Cons.prems have "c = hd kw" by (cases kw) simp_all
    with Cons.prems True show ?thesis by simp
  next
    case False
    with Cons show ?thesis by simp
  qed
qed

lemma contains_strip:
  assumes "kw \<noteq> []" and "\<not> is_space (hd kw)" and "\<not> is_space (last kw)"
  shows "contains kw (strip s) \<longleftrightarrow> contains kw s"
proof
  assume "contains kw (strip s)"
  then have "sublist kw (strip s)" by (simp add: contains_sublist)
  moreover have "sublist (strip s) s"
  proof -
    have "sublist (rev (dropWhile is_space (rev (dropWhile is_space s)))) (rev (rev (dropWhile is_space s)))"
      unfolding sublist_rev by (rule sublist_dropWhile)
    then have "sublist (strip s) (dropWhile is_space s)" by (simp add: strip_def rstrip_def)
    then show ?thesis using sublist_dropWhile [of is_space s] by (rule sublist_order.order_trans)
  qed
  ultimately have "sublist kw s" by (rule sublist_order.order_trans)
  then show "contains kw s" by (simp add: contains_sublist)
next
  assume a: "contains kw s"
  have 1: "contains kw (dropWhile is_space s)"
    using a assms(1,2) by (rule contains_dropWhile)
  then have "contains (rev kw) (rev (dropWhile is_space s))"
    by (simp add: contains_sublist)
  then have "contains (rev kw) (dropWhile is_space (rev (dropWhile is_space s)))"
    using assms by (intro contains_dropWhile) (simp_all add: hd_rev)
  then show "contains kw (strip s)"
    by (simp add: contains_sublist strip_def rstrip_def sublist_rev_right)
qed

lemma keyword_ends:
  "\<forall>kw \<in> set (skip_keywords @ help_keywords).
      kw \<noteq> [] \<and> \<not> is_space (hd kw) \<and> \<not> is_space (last kw)"
  by (simp add: skip_keywords_def help_keywords_def u_def is_space_def)

lemma keyword_in_stripped:
  "any_in skip_keywords (strip t) = any_in skip_keywords t"
  "any_in help_keywords (strip t) = any_in help_keywords t"
  using keyword_ends by (auto simp add: any_in_def list_ex_iff contains_strip)

text \<open>
  C3 (as amended). For every input, the keyword tiers of the intent classifier are tried in
  the order skip, help, code indicator, each deciding without a collaborator call (the
  call count is unchanged and the outcome does not depend on the collaborator): an input
  whose lower-cased text contains a skip keyword yields \<open>SKIP_PROBLEM\<close> whatever else it
  contains; one whose lower-cased text contains a help keyword and no skip keyword yields
  \<open>ASK_FOR_HELP\<close>; one that contains, as written (the match is case-sensitive), a code
  indicator and matches neither of the above yields \<open>SUBMIT_CODE\<close>.
\<close>

theorem keyword_tiers:
  "(any_in skip_keywords (str_lower env user_input) \<longrightarrow>
      recognize_intent env s user_input n = (Inr (SKIP_PROBLEM, []), n))
   \<and> (\<not> any_in skip_keywords (str_lower env user_input)
      \<and> any_in help_keywords (str_lower env user_input) \<longrightarrow>
      recognize_intent env s user_input n = (Inr (ASK_FOR_HELP, []), n))
   \<and> (\<not> any_in skip_keywords (str_lower env user_input)
      \<and> \<not> any_in help_keywords (str_lower env user_input)
      \<and> any_in code_indicators user_input \<longrightarrow>
      recognize_intent env s user_input n = (Inr (SUBMIT_CODE, []), n))"
  by (simp add: recognize_intent_def keyword_in_stripped)

theorem keyword_tiers_witness:
  "any_in skip_keywords (ascii_lower (u ''Skip def f''))
   \<and> any_in code_indicators (u ''Skip def f'')
   \<and> recognize_intent (example_env []) (example_session WAITING_CODE) (u ''Skip def f'') 0
       = (Inr (SKIP_PROBLEM, []), 0)"
proof -
  have h: "any_in skip_keywords (ascii_lower (u ''Skip def f''))"
    by (simp add: any_in_def skip_keywords_def ascii_lower_def u_def)
  have c: "any_in code_indicators (u ''Skip def f'')"
    by (simp add: any_in_def code_indicators_def u_def)
  show ?thesis
    using h c keyword_tiers [of "example_env []" "u ''Skip def f''" "example_session WAITING_CODE" 0]
    by (simp add: example_env_sel)
qed

text \<open>
  The claim as stated fails: the code indicators are matched against the input as written,
  so \<open>RETURN 1\<close>, which holds the indicator \<open>return\<close> up to case and no skip or help
  keyword, passes the keyword tiers and is classified by the collaborator.
\<close>

theorem code_indicator_case_counterexample:
  "any_in code_indicators (ascii_lower (u ''RETURN 1''))
   \<and> \<not> any_in skip_keywords (ascii_lower (u ''RETURN 1''))
   \<and> \<not> any_in help_keywords (ascii_lower (u ''RETURN 1''))
   \<and> recognize_intent (example_env [no_fields]) (example_session WAITING_CODE) (u ''RETURN 1'') 0
       = (Inr (OTHER, []), Suc 0)"
  by (simp add: recognize_intent_def any_in_def code_indicators_def skip_keywords_def
      help_keywords_def ascii_lower_def u_def example_env_def scripted_def strip_def rstrip_def
      is_space_def no_fields_def get_default_def UserIntent_of_def)


section \<open>The response normalizer\<close>

text \<open>
  What the candidate texts are when the payload is embedded in the usual ways: a payload
  inside a fence, with white space around it and prose before the fence, is the fence's
  interior; a text whose first opening brace and last closing brace delimit the payload has
  it as its brace span.
\<close>

lemma find_sub_after_prefix:
  assumes "pat \<noteq> []" and "hd pat \<notin> set pre"
  shows "find_sub pat (pre @ pat @ rest) = Some (length pre)"
  using assms
proof (induction pre)
  case Nil
  then show ?case
    by (cases pat) (simp_all add: startswith_prefix)
next
  case (Cons c pre)
  then have "\<not> startswith pat (c # pre @ pat @ rest)"
    by (cases pat) auto
  with Cons show ?case by simp
qed

lemma rfind_sub_before_suffix:
  assumes "c \<notin> set post"
  shows "rfind_sub [c] (pre @ [c] @ post) = Some (length pre)"
proof -
  have p: "rfind_sub [c] post = None"
    using assms by (induction post) auto
  have "rfind_sub [c] ([c] @ post) = Some 0"
    using p by simp
  then show ?thesis
    by (induction pre) simp_all
qed

lemma rstrip_trailing:
  assumes "payload \<noteq> []" and "\<not> is_space (last payload)" and "\<forall>c \<in> set ws. is_space c"
  shows "rstrip (payload @ ws) = payload"
proof -
  have "dropWhile is_space (rev ws @ rev payload) = dropWhile is_space (rev payload)"
    using assms(3) by (intro dropWhile_append2) simp
  also have "\<dots> = rev payload"
    using assms(1,2) by (cases "rev payload") (auto simp add: last_rev hd_rev)
  finally show ?thesis by (simp add: rstrip_def)
qed

lemma fence_interior_exact:
  assumes "opening = u ''```json'' \<or> opening = u ''```''"
    and "96 \<notin> set pre" and "96 \<notin> set payload"
    and "payload \<noteq> []" and "\<not> is_space (hd payload)" and "\<not> is_space (last payload)"
    and "\<forall>c \<in> set ws1. is_space c" and "\<forall>c \<in> set ws2. is_space c"
  shows "fence_interior opening (pre @ opening @ ws1 @ payload @ ws2 @ u ''```'' @ post)
           = Some payload"
proof -
  let ?rest = "ws1 @ payload @ ws2 @ u ''```'' @ post"
  have o: "opening \<noteq> []" "hd opening = 96"
    using assms(1) by (auto simp add: u_def)
  have 1: "find_sub opening (pre @ opening @ ?rest) = Some (length pre)"
    using o assms(2) by (intro find_sub_after_prefix) simp_all
  have 2: "drop (length pre + length opening) (pre @ opening @ ?rest) = ?rest"
    by simp
  have "dropWhile is_space ?rest = dropWhile is_space (payload @ ws2 @ u ''```'' @ post)"
    using assms(7) by (intro dropWhile_append2) simp
  also have "\<dots> = payload @ ws2 @ u ''```'' @ post"
    using assms(4,5) by (cases payload) simp_all
  finally have 3: "dropWhile is_space ?rest = (payload @ ws2) @ u ''```'' @ post"
    by simp
  have "96 \<notin> set (payload @ ws2)"
    using assms(3,8) by (auto simp add: is_space_def)
  then have 4: "find_sub (u ''```'') ((payload @ ws2) @ u ''```'' @ post) = Some (length (payload @ ws2))"
    by (intro find_sub_after_prefix) (simp_all add: u_def)
  have 5: "rstrip (payload @ ws2) = payload"
    using assms(4,6,8) by (rule rstrip_trailing)
  show ?thesis
    unfolding fence_interior_def 1 option.case Let_def 2 3 4
    using 5 by simp
qed

lemma brace_span_exact:
  assumes "123 \<notin> set pre" and "125 \<notin> set post"
  shows "brace_span (pre @ u ''{'' @ mid @ u ''}'' @ post) = Some (u ''{'' @ mid @ u ''}'')"
proof -
  have 1: "find_sub (u ''{'') (pre @ u ''{'' @ mid @ u ''}'' @ post) = Some (length pre)"
    using assms(1) by (intro find_sub_after_prefix) (simp_all add: u_def)
  have "rfind_sub [125] ((pre @ u ''{'' @ mid) @ [125] @ post) = Some (length (pre @ u ''{'' @ mid))"
    using assms(2) by (rule rfind_sub_before_suffix)
  then have 2: "rfind_sub (u ''}'') (pre @ u ''{'' @ mid @ u ''}'' @ post)
      = Some (length pre + 1 + length mid)"
    by (simp add: u_def)
  show ?thesis
    unfolding brace_span_def 1 2
    by (simp add: slice_def u_def)
qed







end
